theory Spec2Isabelle
  imports Main "HOL-Library.AList"
begin

text \<open>
  A model of the module \<^verbatim>\<open>src/index.ts\<close> of recoil-persist: the factory
  \<^verbatim>\<open>recoilPersist\<close>, the effect \<^verbatim>\<open>persistAtom\<close> it returns, and the snapshot reader and writer
  \<^verbatim>\<open>getState\<close>, \<^verbatim>\<open>parseState\<close> and \<^verbatim>\<open>setState\<close>. The module is a closure over a storage
  backend; here every function takes the world it acts on (the backend's state and the
  trace of the calls that leave the module) and returns the world it leaves. An
  exception is a value (\<open>Inl\<close>), a promise is given by how it settles, and the callback
  left on a promise runs after the body that left it has returned.
\<close>

section \<open>JavaScript values\<close>

text \<open>
  The values the effect handles: what a cell may hold, what \<^verbatim>\<open>JSON.parse\<close> may return and
  what a snapshot may contain. Numbers are integers (fractions are not modelled), an
  object is the list of its own enumerable properties in creation order, and
  \<open>JDefaultValue\<close> is an instance of Recoil's class \<^verbatim>\<open>DefaultValue\<close>, the marker a reset
  passes to \<^verbatim>\<open>onSet\<close>. Every object inherits from \<^verbatim>\<open>Object.prototype\<close>: the method
  \<^verbatim>\<open>hasOwnProperty\<close> and the accessor \<^verbatim>\<open>__proto__\<close> are found there unless an own
  property of that name comes first. An array holds its elements; a hole left by an
  assignment or a deletion is the element \<open>JUndefined\<close>, which \<^verbatim>\<open>JSON.stringify\<close> writes
  as it writes a hole.
\<close>

datatype jsval =
    JUndefined
  | JNull
  | JBool bool
  | JNum int
  | JStr string
  | JArr "jsval list"
  | JObj "(string \<times> jsval) list"
  | JDefaultValue

text \<open>
  Exceptions and rejection reasons. \<open>Thrown v\<close> is a value a storage backend throws or
  rejects with.
\<close>

datatype exn = TypeError | ReferenceError | RangeError | SyntaxError | Thrown jsval

text \<open>
  The built-ins the source relies on. \<^verbatim>\<open>JSON.parse\<close> throws (\<open>Inl\<close>) on text that is not
  JSON; \<^verbatim>\<open>JSON.stringify\<close> throws on what it cannot serialise. \<open>StringToNumber\<close> is the
  conversion of a string to a number, which the source reaches in one place only, the
  assignment to the \<^verbatim>\<open>length\<close> of an array: it gives the integer the string denotes,
  and \<open>None\<close> where the number is \<^verbatim>\<open>NaN\<close>, infinite or has a fraction. They are a
  parameter of every function below, so that the theorems hold for any implementation
  of them.
\<close>

record runtime =
  JSON_parse :: "string \<Rightarrow> exn + jsval"
  JSON_stringify :: "jsval \<Rightarrow> exn + string"
  StringToNumber :: "string \<Rightarrow> int option"

subsection \<open>Decimal numerals and array indices\<close>

definition digit_char :: "nat \<Rightarrow> char" where
  "digit_char d = char_of (48 + d)"

function show_nat :: "nat \<Rightarrow> string" where
  "show_nat n = (if n < 10 then [digit_char n] else show_nat (n div 10) @ [digit_char (n mod 10)])"
  by pat_completeness auto
termination
  by (relation "measure id") auto

declare show_nat.simps [simp del]

definition is_digit :: "char \<Rightarrow> bool" where
  "is_digit c = ((48::nat) \<le> of_char c \<and> of_char c \<le> (57::nat))"

definition digit_val :: "char \<Rightarrow> nat" where
  "digit_val c = of_char c - 48"

definition read_nat :: "string \<Rightarrow> nat" where
  "read_nat s = foldl (\<lambda>n c. 10 * n + digit_val c) 0 s"

definition show_int :: "int \<Rightarrow> string" where
  "show_int i = (if i < 0 then CHR ''-'' # show_nat (nat (- i)) else show_nat (nat i))"

text \<open>
  An array index is a canonical numeral below \<open>2\<^sup>3\<^sup>2 - 1\<close>: \<^verbatim>\<open>"0"\<close>, \<^verbatim>\<open>"7"\<close>, \<^verbatim>\<open>"12"\<close>, but
  not \<^verbatim>\<open>"07"\<close>.
\<close>

definition array_index :: "string \<Rightarrow> nat option" where
  "array_index k =
    (if k \<noteq> [] \<and> list_all is_digit k \<and> show_nat (read_nat k) = k \<and> read_nat k < 4294967295
     then Some (read_nat k) else None)"

subsection \<open>Own properties\<close>

text \<open>
  \<^verbatim>\<open>state.hasOwnProperty(k)\<close>: a \<^verbatim>\<open>TypeError\<close> on \<^verbatim>\<open>null\<close> and \<^verbatim>\<open>undefined\<close>. The call
  looks the method up first: on an object with an own property named
  \<^verbatim>\<open>hasOwnProperty\<close> it finds that property, which in a snapshot is never a function,
  and the call is a \<^verbatim>\<open>TypeError\<close>. The own properties of a string or an array are its
  indices and \<^verbatim>\<open>length\<close>; a number or a boolean has none.
\<close>

definition hasOwnProperty :: "jsval \<Rightarrow> string \<Rightarrow> exn + bool" where
  "hasOwnProperty v k =
    (case v of
       JUndefined \<Rightarrow> Inl TypeError
     | JNull \<Rightarrow> Inl TypeError
     | JObj ps \<Rightarrow>
         (if map_of ps ''hasOwnProperty'' \<noteq> None then Inl TypeError
          else Inr (map_of ps k \<noteq> None))
     | JArr xs \<Rightarrow>
         Inr (k = ''length'' \<or> (case array_index k of Some i \<Rightarrow> i < length xs | None \<Rightarrow> False))
     | JStr s \<Rightarrow>
         Inr (k = ''length'' \<or> (case array_index k of Some i \<Rightarrow> i < length s | None \<Rightarrow> False))
     | JBool b \<Rightarrow> Inr False
     | JNum n \<Rightarrow> Inr False
     | JDefaultValue \<Rightarrow> Inr False)"

text \<open>\<^verbatim>\<open>state[k]\<close>, read where \<^verbatim>\<open>hasOwnProperty\<close> has answered true.\<close>

definition get_prop :: "jsval \<Rightarrow> string \<Rightarrow> jsval" where
  "get_prop v k =
    (case v of
       JObj ps \<Rightarrow> (case map_of ps k of Some x \<Rightarrow> x | None \<Rightarrow> JUndefined)
     | JArr xs \<Rightarrow>
         (if k = ''length'' then JNum (int (length xs))
          else case array_index k of
                 Some i \<Rightarrow> (if i < length xs then xs ! i else JUndefined)
               | None \<Rightarrow> JUndefined)
     | JStr s \<Rightarrow>
         (if k = ''length'' then JNum (int (length s))
          else case array_index k of
                 Some i \<Rightarrow> (if i < length s then JStr [s ! i] else JUndefined)
               | None \<Rightarrow> JUndefined)
     | _ \<Rightarrow> JUndefined)"

text \<open>
  The conversion of a value to a string: an array joins the strings of its elements, the
  empty string standing for \<^verbatim>\<open>null\<close> and \<^verbatim>\<open>undefined\<close>; an object is
  \<^verbatim>\<open>[object Object]\<close>, unless an own property named \<^verbatim>\<open>toString\<close>, which is no function,
  hides the inherited method: then the conversion is a \<^verbatim>\<open>TypeError\<close>.
\<close>

fun to_string :: "jsval \<Rightarrow> exn + string"
  and join_strings :: "jsval list \<Rightarrow> exn + string" where
  "to_string JUndefined = Inr ''undefined''"
| "to_string JNull = Inr ''null''"
| "to_string (JBool b) = Inr (if b then ''true'' else ''false'')"
| "to_string (JNum n) = Inr (show_int n)"
| "to_string (JStr s) = Inr s"
| "to_string (JArr xs) = join_strings xs"
| "to_string (JObj ps) =
     (if map_of ps ''toString'' \<noteq> None then Inl TypeError else Inr ''[object Object]'')"
| "to_string JDefaultValue = Inr ''[object Object]''"
| "join_strings [] = Inr []"
| "join_strings (x # xs) =
     (case (if x = JUndefined \<or> x = JNull then Inr [] else to_string x) of
        Inl e \<Rightarrow> Inl e
      | Inr s \<Rightarrow>
          (case join_strings xs of
             Inl e \<Rightarrow> Inl e
           | Inr t \<Rightarrow> Inr (if xs = [] then s else s @ CHR '','' # t)))"

text \<open>
  The length an array takes when \<open>x\<close> is assigned to its \<^verbatim>\<open>length\<close>: the number \<open>x\<close>
  converts to, which must be an integer from \<open>0\<close> to \<open>2\<^sup>3\<^sup>2 - 1\<close>, or the assignment is a
  \<^verbatim>\<open>RangeError\<close>. \<^verbatim>\<open>undefined\<close> and an object convert to \<^verbatim>\<open>NaN\<close>, an array to the number
  of its string.
\<close>

definition array_length :: "runtime \<Rightarrow> jsval \<Rightarrow> exn + nat" where
  "array_length rt x =
    (case (case x of
             JUndefined \<Rightarrow> Inr None
           | JNull \<Rightarrow> Inr (Some 0)
           | JBool b \<Rightarrow> Inr (Some (if b then 1 else 0))
           | JNum n \<Rightarrow> Inr (Some n)
           | JStr s \<Rightarrow> Inr (StringToNumber rt s)
           | JArr ys \<Rightarrow>
               (case to_string x of Inl e \<Rightarrow> Inl e | Inr s \<Rightarrow> Inr (StringToNumber rt s))
           | JObj ps \<Rightarrow> (if map_of ps ''toString'' \<noteq> None then Inl TypeError else Inr None)
           | JDefaultValue \<Rightarrow> Inr None) of
       Inl e \<Rightarrow> Inl e
     | Inr None \<Rightarrow> Inl RangeError
     | Inr (Some n) \<Rightarrow> (if 0 \<le> n \<and> n < 4294967296 then Inr (nat n) else Inl RangeError))"

text \<open>
  \<^verbatim>\<open>state[k] = x\<close> on an object. The name \<^verbatim>\<open>__proto__\<close> is an accessor of
  \<^verbatim>\<open>Object.prototype\<close>: unless the object has an own property of that name, the
  assignment runs the inherited setter, which creates no own property. Every other name
  is replaced in place or appended.
\<close>

definition assign :: "string \<Rightarrow> jsval \<Rightarrow> (string \<times> jsval) list \<Rightarrow> (string \<times> jsval) list" where
  "assign k x ps =
    (if k = ''__proto__'' \<and> map_of ps k = None then ps else AList.update k x ps)"

text \<open>
  \<^verbatim>\<open>state[k] = x\<close> in a module (strict mode): a \<^verbatim>\<open>TypeError\<close> on \<^verbatim>\<open>null\<close> and \<^verbatim>\<open>undefined\<close>,
  and on a primitive unless the name is \<^verbatim>\<open>__proto__\<close>, whose setter returns at once. On an
  array an index sets the element, leaving holes below it when it lies beyond the end,
  \<^verbatim>\<open>length\<close> cuts or lengthens the array, and any other name makes a property that
  \<^verbatim>\<open>JSON.stringify\<close> does not write: the snapshot is written right after the assignment
  and read by nothing else, so the array is as before.
\<close>

definition set_prop :: "runtime \<Rightarrow> jsval \<Rightarrow> string \<Rightarrow> jsval \<Rightarrow> exn + jsval" where
  "set_prop rt v k x =
    (case v of
       JUndefined \<Rightarrow> Inl TypeError
     | JNull \<Rightarrow> Inl TypeError
     | JObj ps \<Rightarrow> Inr (JObj (assign k x ps))
     | JDefaultValue \<Rightarrow> Inr (JObj (assign k x []))
     | JArr xs \<Rightarrow>
         (if k = ''length'' then
            (case array_length rt x of
               Inl e \<Rightarrow> Inl e
             | Inr n \<Rightarrow> Inr (JArr (take n xs @ replicate (n - length xs) JUndefined)))
          else
            (case array_index k of
               Some i \<Rightarrow>
                 Inr (JArr (if i < length xs then xs[i := x]
                            else xs @ replicate (i - length xs) JUndefined @ [x]))
             | None \<Rightarrow> Inr (JArr xs)))
     | _ \<Rightarrow> (if k = ''__proto__'' then Inr v else Inl TypeError))"

text \<open>
  \<^verbatim>\<open>delete state[k]\<close>, run where \<^verbatim>\<open>hasOwnProperty\<close> has answered true: the indices and the
  length of a string and the length of an array cannot be deleted (\<^verbatim>\<open>TypeError\<close> in strict
  mode); deleting an element of an array leaves a hole.
\<close>

definition delete_prop :: "jsval \<Rightarrow> string \<Rightarrow> exn + jsval" where
  "delete_prop v k =
    (case v of
       JObj ps \<Rightarrow> Inr (JObj (AList.delete k ps))
     | JArr xs \<Rightarrow>
         (if k = ''length'' then Inl TypeError
          else
            (case array_index k of
               Some i \<Rightarrow> Inr (JArr (xs[i := JUndefined]))
             | None \<Rightarrow> Inr (JArr xs)))
     | JStr s \<Rightarrow> Inl TypeError
     | JUndefined \<Rightarrow> Inl TypeError
     | JNull \<Rightarrow> Inl TypeError
     | _ \<Rightarrow> Inr v)"

text \<open>
  \<^verbatim>\<open>typeof state.then === 'function'\<close> on a value that is not a promise: reading a property
  of \<^verbatim>\<open>null\<close> or \<^verbatim>\<open>undefined\<close> throws; no value of \<open>jsval\<close> holds a function.
\<close>

definition then_is_function :: "jsval \<Rightarrow> exn + bool" where
  "then_is_function v = (if v = JNull \<or> v = JUndefined then Inl TypeError else Inr False)"

definition instanceof_DefaultValue :: "jsval \<Rightarrow> bool" where
  "instanceof_DefaultValue v = (v = JDefaultValue)"

section \<open>The storage contract\<close>

text \<open>
  \<^verbatim>\<open>interface PersistStorage\<close>. The key is a string by its declared type and
  \<^verbatim>\<open>undefined\<close> when the configuration has none. \<^verbatim>\<open>getItem\<close> answers \<^verbatim>\<open>null\<close>, a string or
  a promise; the source also tests for \<^verbatim>\<open>undefined\<close> and for any other shape. A promise
  is given by how it settles (\<open>Pending\<close>: never). A backend is an object with a state of
  its own, of type \<open>'b\<close>.
\<close>

datatype skey = KUndefined | KString string

datatype resolved = RUndefined | RNull | RString string

datatype 'a promise = Fulfilled 'a | Rejected exn | Pending

datatype getres =
    GetNull
  | GetUndefined
  | GetString string
  | GetPromise "resolved promise"
  | GetOther
  | GetThrows exn

datatype setres = SetVoid | SetPromise "unit promise" | SetThrows exn

record 'b PersistStorage =
  setItem :: "skey \<Rightarrow> string \<Rightarrow> 'b \<Rightarrow> setres \<times> 'b"
  getItem :: "skey \<Rightarrow> 'b \<Rightarrow> getres \<times> 'b"

text \<open>
  \<^verbatim>\<open>interface PersistConfiguration\<close> and \<^verbatim>\<open>interface PersistSetting\<close>. A key function
  such as \<^verbatim>\<open>() => "k-" + counter++\<close> is a function of the number of calls made before.
\<close>

datatype key_option = KeyOmitted | KeyString string | KeyFunction "nat \<Rightarrow> string"

record 'b PersistConfiguration =
  key :: key_option
  storage :: "'b PersistStorage option"

record PersistSetting =
  serialize :: "(jsval \<Rightarrow> string) option"
  deserialize :: "(jsval \<Rightarrow> jsval) option"

section \<open>The world the effect acts on\<close>

text \<open>
  Every call that leaves the module is an event of the trace: the two storage calls, the
  cell's \<^verbatim>\<open>setSelf\<close> and \<^verbatim>\<open>onSet\<close>, \<^verbatim>\<open>console.error\<close>, and a promise that rejects with no
  handler attached.
\<close>

datatype event =
    E_getItem skey
  | E_setItem skey string
  | E_setSelf jsval
  | E_onSet
  | E_console_error exn
  | E_unhandled exn

record 'b world =
  backend :: 'b
  key_calls :: nat
  trace :: "event list"

definition emit :: "event \<Rightarrow> 'b world \<Rightarrow> 'b world" where
  "emit e w = w\<lparr>trace := trace w @ [e]\<rparr>"

text \<open>
  The execution context: whether the global \<^verbatim>\<open>window\<close> exists, and the global
  \<^verbatim>\<open>localStorage\<close> (\<open>None\<close>: the identifier is not bound, reading it is a
  \<^verbatim>\<open>ReferenceError\<close>).
\<close>

record 'b env =
  window_defined :: bool
  localStorage :: "'b PersistStorage option"

section \<open>The module\<close>

definition getKey :: "'b PersistConfiguration \<Rightarrow> 'b world \<Rightarrow> skey \<times> 'b world" where
  "getKey config w =
    (case key config of
       KeyFunction f \<Rightarrow> (KString (f (key_calls w)), w\<lparr>key_calls := Suc (key_calls w)\<rparr>)
     | KeyString s \<Rightarrow> (KString s, w)
     | KeyOmitted \<Rightarrow> (KUndefined, w))"

text \<open>
  What \<^verbatim>\<open>persistAtom\<close> closes over: the constants \<^verbatim>\<open>storage\<close>, \<^verbatim>\<open>serialize\<close>,
  \<^verbatim>\<open>deserialize\<close> and \<^verbatim>\<open>key\<close> of the factory's body.
\<close>

record 'b closure =
  c_storage :: "'b PersistStorage"
  c_serialize :: "(jsval \<Rightarrow> string) option"
  c_deserialize :: "(jsval \<Rightarrow> jsval) option"
  c_key :: skey

datatype 'b AtomEffect = NoopEffect | PersistAtom "'b closure"

definition empty_config :: "'b PersistConfiguration" where
  "empty_config = \<lparr>key = KeyOmitted, storage = None\<rparr>"

definition empty_setting :: PersistSetting where
  "empty_setting = \<lparr>serialize = None, deserialize = None\<rparr>"

text \<open>
  \<^verbatim>\<open>recoilPersist(config)(settings)\<close>. Applying it to the configuration alone runs nothing;
  the body runs when the settings arrive. It returns the effect, or throws where
  \<^verbatim>\<open>localStorage\<close> is read and not bound.
\<close>

definition recoilPersist ::
  "'b env \<Rightarrow> 'b PersistConfiguration option \<Rightarrow> PersistSetting option \<Rightarrow> 'b world
    \<Rightarrow> (exn + 'b AtomEffect) \<times> 'b world" where
  "recoilPersist e config0 settings w =
    (let config = (case config0 of None \<Rightarrow> empty_config | Some c \<Rightarrow> c) in
     if \<not> window_defined e then (Inr NoopEffect, w)
     else
       (case (case storage config of
                Some st \<Rightarrow> Inr st
              | None \<Rightarrow> (case localStorage e of Some st \<Rightarrow> Inr st | None \<Rightarrow> Inl ReferenceError)) of
          Inl x \<Rightarrow> (Inl x, w)
        | Inr st \<Rightarrow>
            (let s = (case settings of None \<Rightarrow> empty_setting | Some s \<Rightarrow> s);
                 (k, w1) = getKey config w
             in (Inr (PersistAtom \<lparr>c_storage = st, c_serialize = serialize s,
                                    c_deserialize = deserialize s, c_key = k\<rparr>), w1))))"

text \<open>\<^verbatim>\<open>ToString\<close> of what \<^verbatim>\<open>JSON.parse\<close> is given.\<close>

definition to_text :: "resolved \<Rightarrow> string" where
  "to_text r = (case r of RString s \<Rightarrow> s | RNull \<Rightarrow> ''null'' | RUndefined \<Rightarrow> ''undefined'')"

definition parseState :: "runtime \<Rightarrow> resolved \<Rightarrow> 'b world \<Rightarrow> jsval \<times> 'b world" where
  "parseState rt state w =
    (if state = RUndefined then (JObj [], w)
     else
       (case JSON_parse rt (to_text state) of
          Inr v \<Rightarrow> (v, w)
        | Inl x \<Rightarrow> (JObj [], emit (E_console_error x) w)))"

text \<open>
  What \<^verbatim>\<open>getState\<close> returns: a value now, or \<open>Later p\<close> for the promise
  \<^verbatim>\<open>toParse.then(parseState)\<close> derived from the backend's promise \<open>p\<close>.
\<close>

datatype snapshot = Now jsval | Later "resolved promise"

definition getState :: "runtime \<Rightarrow> 'b closure \<Rightarrow> 'b world \<Rightarrow> (exn + snapshot) \<times> 'b world" where
  "getState rt c w =
    (let (toParse, b) = getItem (c_storage c) (c_key c) (backend w);
         w1 = emit (E_getItem (c_key c)) (w\<lparr>backend := b\<rparr>)
     in case toParse of
          GetThrows x \<Rightarrow> (Inl x, w1)
        | GetNull \<Rightarrow> (Inr (Now (JObj [])), w1)
        | GetUndefined \<Rightarrow> (Inr (Now (JObj [])), w1)
        | GetString s \<Rightarrow> (let (v, w2) = parseState rt (RString s) w1 in (Inr (Now v), w2))
        | GetPromise p \<Rightarrow> (Inr (Later p), w1)
        | GetOther \<Rightarrow> (Inr (Now (JObj [])), w1))"

text \<open>
  Settling a snapshot, as \<^verbatim>\<open>await\<close> and \<^verbatim>\<open>then\<close> see it: \<^verbatim>\<open>parseState\<close> runs when the
  backend's promise is fulfilled.
\<close>

definition settle :: "runtime \<Rightarrow> snapshot \<Rightarrow> 'b world \<Rightarrow> jsval promise \<times> 'b world" where
  "settle rt st w =
    (case st of
       Now v \<Rightarrow> (Fulfilled v, w)
     | Later Pending \<Rightarrow> (Pending, w)
     | Later (Rejected x) \<Rightarrow> (Rejected x, w)
     | Later (Fulfilled r) \<Rightarrow> (let (v, w1) = parseState rt r w in (Fulfilled v, w1)))"

definition setState :: "runtime \<Rightarrow> 'b closure \<Rightarrow> jsval \<Rightarrow> 'b world \<Rightarrow> 'b world" where
  "setState rt c state w =
    (case JSON_stringify rt state of
       Inl x \<Rightarrow> emit (E_console_error x) w
     | Inr text \<Rightarrow>
         (let (r, b) = setItem (c_storage c) (c_key c) text (backend w);
              w1 = emit (E_setItem (c_key c) text) (w\<lparr>backend := b\<rparr>)
          in case r of
               SetThrows x \<Rightarrow> emit (E_console_error x) w1
             | SetVoid \<Rightarrow> w1
             | SetPromise p \<Rightarrow> (case p of Rejected x \<Rightarrow> emit (E_unhandled x) w1 | _ \<Rightarrow> w1)))"

text \<open>
  What the cell engine passes to the effect. \<^verbatim>\<open>onSet\<close> and \<^verbatim>\<open>setSelf\<close> are the engine's
  callbacks: calling them is an event.
\<close>

datatype trigger = TriggerGet | TriggerSet

record effect_args =
  node_key :: string
  trigger :: trigger

text \<open>
  The statement \<^verbatim>\<open>if (s.hasOwnProperty(node.key)) setSelf(deserialize ? deserialize(s[node.key]) : s[node.key])\<close>,
  which the source runs on the snapshot it has at once and on the one a promise brings.
  It returns the exception, if one is thrown.
\<close>

definition push_if_present :: "'b closure \<Rightarrow> string \<Rightarrow> jsval \<Rightarrow> 'b world \<Rightarrow> exn option \<times> 'b world" where
  "push_if_present c k s w =
    (case hasOwnProperty s k of
       Inl x \<Rightarrow> (Some x, w)
     | Inr has \<Rightarrow>
         (if has then
            (None, emit (E_setSelf (case c_deserialize c of
                                      Some d \<Rightarrow> d (get_prop s k)
                                    | None \<Rightarrow> get_prop s k)) w)
          else (None, w)))"

text \<open>
  The body of \<^verbatim>\<open>persistAtom\<close> up to its return: the exception it throws, if any, and the
  backend's promise on which it has left a \<^verbatim>\<open>then\<close> callback, if any. A promise object
  has no own property named by a cell, so the second test fails on it. An exception
  leaves the body before \<^verbatim>\<open>onSet\<close> is reached.
\<close>

definition persistAtom ::
  "runtime \<Rightarrow> 'b closure \<Rightarrow> effect_args \<Rightarrow> 'b world
    \<Rightarrow> (exn option \<times> resolved promise option) \<times> 'b world" where
  "persistAtom rt c a w =
    (if trigger a = TriggerGet then
       (case getState rt c w of
          (Inl x, w1) \<Rightarrow> ((Some x, None), w1)
        | (Inr (Later p), w1) \<Rightarrow> ((None, Some p), emit E_onSet w1)
        | (Inr (Now state), w1) \<Rightarrow>
            (case then_is_function state of
               Inl x \<Rightarrow> ((Some x, None), w1)
             | Inr f \<Rightarrow>
                 (case push_if_present c (node_key a) state w1 of
                    (Some x, w2) \<Rightarrow> ((Some x, None), w2)
                  | (None, w2) \<Rightarrow> ((None, None), emit E_onSet w2))))
     else ((None, None), emit E_onSet w))"

text \<open>
  The callback given to \<^verbatim>\<open>state.then\<close>, run when the promise settles. The promise that
  \<^verbatim>\<open>then\<close> returns is dropped, so a rejection of the snapshot and an exception of the
  callback end as an unhandled rejection.
\<close>

definition then_callback :: "runtime \<Rightarrow> 'b closure \<Rightarrow> string \<Rightarrow> resolved promise \<Rightarrow> 'b world \<Rightarrow> 'b world" where
  "then_callback rt c k p w =
    (case settle rt (Later p) w of
       (Pending, w1) \<Rightarrow> w1
     | (Rejected x, w1) \<Rightarrow> emit (E_unhandled x) w1
     | (Fulfilled s, w1) \<Rightarrow>
         (case push_if_present c k s w1 of
            (Some x, w2) \<Rightarrow> emit (E_unhandled x) w2
          | (None, w2) \<Rightarrow> w2))"

text \<open>
  Attaching an effect to a cell: the body runs, then the callback it left. The degraded
  effect is \<^verbatim>\<open>() => { }\<close>.
\<close>

definition attach :: "runtime \<Rightarrow> 'b AtomEffect \<Rightarrow> effect_args \<Rightarrow> 'b world \<Rightarrow> exn option \<times> 'b world" where
  "attach rt eff a w =
    (case eff of
       NoopEffect \<Rightarrow> (None, w)
     | PersistAtom c \<Rightarrow>
         (case persistAtom rt c a w of
            ((thrown, None), w1) \<Rightarrow> (thrown, w1)
          | ((thrown, Some p), w1) \<Rightarrow> (thrown, then_callback rt c (node_key a) p w1)))"

text \<open>
  \<^verbatim>\<open>await getState()\<close> inside the \<^verbatim>\<open>async\<close> handler: the snapshot the read ends with. An
  exception of \<^verbatim>\<open>getState\<close> rejects the handler's promise.
\<close>

definition read_snapshot :: "runtime \<Rightarrow> 'b closure \<Rightarrow> 'b world \<Rightarrow> jsval promise \<times> 'b world" where
  "read_snapshot rt c w =
    (case getState rt c w of
       (Inl x, w1) \<Rightarrow> (Rejected x, w1)
     | (Inr st, w1) \<Rightarrow> settle rt st w1)"

text \<open>
  The statement \<^verbatim>\<open>if (newValue !== null && newValue !== undefined && newValue instanceof DefaultValue && state.hasOwnProperty(node.key)) { delete state[node.key] } else { state[node.key] = serialize ? serialize(newValue) : newValue }\<close>
  of the handler: the snapshot it leaves, or the exception. The conjunction is
  evaluated left to right, so \<^verbatim>\<open>hasOwnProperty\<close> is called for a \<^verbatim>\<open>DefaultValue\<close> only.
\<close>

definition update_entry ::
  "runtime \<Rightarrow> 'b closure \<Rightarrow> string \<Rightarrow> jsval \<Rightarrow> jsval \<Rightarrow> exn + jsval" where
  "update_entry rt c k newValue state =
    (if newValue \<noteq> JNull \<and> newValue \<noteq> JUndefined \<and> instanceof_DefaultValue newValue
     then (case hasOwnProperty state k of
             Inl x \<Rightarrow> Inl x
           | Inr has \<Rightarrow>
               (if has then delete_prop state k
                else set_prop rt state k
                       (case c_serialize c of Some s \<Rightarrow> JStr (s newValue) | None \<Rightarrow> newValue)))
     else set_prop rt state k
            (case c_serialize c of Some s \<Rightarrow> JStr (s newValue) | None \<Rightarrow> newValue))"

text \<open>
  The \<^verbatim>\<open>async\<close> function given to \<^verbatim>\<open>onSet\<close>, for the cell \<open>k\<close>: the promise it returns and
  the world it leaves. An exception inside it rejects that promise.
\<close>

definition onSet_handler ::
  "runtime \<Rightarrow> 'b closure \<Rightarrow> string \<Rightarrow> jsval \<Rightarrow> 'b world \<Rightarrow> unit promise \<times> 'b world" where
  "onSet_handler rt c k newValue w =
    (case read_snapshot rt c w of
       (Pending, w1) \<Rightarrow> (Pending, w1)
     | (Rejected x, w1) \<Rightarrow> (Rejected x, w1)
     | (Fulfilled state, w1) \<Rightarrow>
         (case update_entry rt c k newValue state of
            Inl x \<Rightarrow> (Rejected x, w1)
          | Inr state' \<Rightarrow> (Fulfilled (), setState rt c state' w1)))"

text \<open>
  The engine calls the handler on an external set of the cell and drops the promise: a
  rejection is unhandled.
\<close>

definition fire_onSet :: "runtime \<Rightarrow> 'b closure \<Rightarrow> string \<Rightarrow> jsval \<Rightarrow> 'b world \<Rightarrow> 'b world" where
  "fire_onSet rt c k newValue w =
    (case onSet_handler rt c k newValue w of
       (Rejected x, w1) \<Rightarrow> emit (E_unhandled x) w1
     | (p, w1) \<Rightarrow> w1)"

section \<open>A reference runtime and reference backends\<close>

text \<open>
  An implementation of the built-ins on the fragment of JSON that \<open>jsval\<close> can hold
  (integer literals, strings of one-byte characters), in the style of ECMA-404: it
  instantiates the runtime wherever a statement is evaluated on concrete text.
  \<^verbatim>\<open>JSON.stringify\<close> leaves out a property whose value is \<^verbatim>\<open>undefined\<close>, writes
  \<^verbatim>\<open>null\<close> for such an array element, and writes an instance of \<^verbatim>\<open>DefaultValue\<close>, which
  has no property of its own, as the empty object.
\<close>

definition dquote :: char where "dquote = CHR 0x22"
definition backslash :: char where "backslash = CHR 0x5C"

definition hex_char :: "nat \<Rightarrow> char" where
  "hex_char d = (if d < 10 then char_of (48 + d) else char_of (87 + d))"

definition escape_char :: "char \<Rightarrow> string" where
  "escape_char c =
    (if c = dquote then [backslash, dquote]
     else if c = backslash then [backslash, backslash]
     else if c = CHR 0x08 then [backslash, CHR ''b'']
     else if c = CHR 0x0C then [backslash, CHR ''f'']
     else if c = CHR 0x0A then [backslash, CHR ''n'']
     else if c = CHR 0x0D then [backslash, CHR ''r'']
     else if c = CHR 0x09 then [backslash, CHR ''t'']
     else if (of_char c :: nat) < 32
       then [backslash, CHR ''u'', CHR ''0'', CHR ''0'', hex_char (of_char c div 16), hex_char (of_char c mod 16)]
     else [c])"

definition quote :: "string \<Rightarrow> string" where
  "quote s = dquote # concat (map escape_char s) @ [dquote]"

fun join_comma :: "string list \<Rightarrow> string" where
  "join_comma [] = []"
| "join_comma [t] = t"
| "join_comma (t # ts) = t @ CHR '','' # join_comma ts"

fun stringify_value :: "jsval \<Rightarrow> string option"
  and stringify_elements :: "jsval list \<Rightarrow> string list"
  and stringify_members :: "(string \<times> jsval) list \<Rightarrow> string list" where
  "stringify_value JUndefined = None"
| "stringify_value JNull = Some ''null''"
| "stringify_value (JBool b) = Some (if b then ''true'' else ''false'')"
| "stringify_value (JNum n) = Some (show_int n)"
| "stringify_value (JStr s) = Some (quote s)"
| "stringify_value (JArr xs) = Some (''['' @ join_comma (stringify_elements xs) @ '']'')"
| "stringify_value (JObj ps) = Some (''{'' @ join_comma (stringify_members ps) @ ''}'')"
| "stringify_value JDefaultValue = Some ''{}''"
| "stringify_elements [] = []"
| "stringify_elements (x # xs) =
     (case stringify_value x of None \<Rightarrow> ''null'' | Some t \<Rightarrow> t) # stringify_elements xs"
| "stringify_members [] = []"
| "stringify_members ((k, x) # ps) =
     (case stringify_value x of
        None \<Rightarrow> stringify_members ps
      | Some t \<Rightarrow> (quote k @ CHR '':'' # t) # stringify_members ps)"

definition js_stringify :: "jsval \<Rightarrow> exn + string" where
  "js_stringify v = (case stringify_value v of Some t \<Rightarrow> Inr t | None \<Rightarrow> Inr ''undefined'')"

definition is_ws :: "char \<Rightarrow> bool" where
  "is_ws c = (c = CHR '' '' \<or> c = CHR 0x09 \<or> c = CHR 0x0A \<or> c = CHR 0x0D)"

fun skip_ws :: "string \<Rightarrow> string" where
  "skip_ws [] = []"
| "skip_ws (c # cs) = (if is_ws c then skip_ws cs else c # cs)"

definition hex_val :: "char \<Rightarrow> nat option" where
  "hex_val c =
    (let n = (of_char c :: nat) in
     if 48 \<le> n \<and> n \<le> 57 then Some (n - 48)
     else if 97 \<le> n \<and> n \<le> 102 then Some (n - 87)
     else if 65 \<le> n \<and> n \<le> 70 then Some (n - 55)
     else None)"

definition unescape :: "char \<Rightarrow> char option" where
  "unescape e =
    (if e = dquote then Some dquote
     else if e = backslash then Some backslash
     else if e = CHR ''/'' then Some CHR ''/''
     else if e = CHR ''b'' then Some (CHR 0x08)
     else if e = CHR ''f'' then Some (CHR 0x0C)
     else if e = CHR ''n'' then Some (CHR 0x0A)
     else if e = CHR ''r'' then Some (CHR 0x0D)
     else if e = CHR ''t'' then Some (CHR 0x09)
     else None)"

fun parse_chars :: "string \<Rightarrow> string \<Rightarrow> (string \<times> string) option" where
  "parse_chars acc [] = None"
| "parse_chars acc (c # cs) =
    (if c = dquote then Some (rev acc, cs)
     else if c = backslash then
       (case cs of
          [] \<Rightarrow> None
        | e # r \<Rightarrow>
            (case unescape e of
               Some x \<Rightarrow> parse_chars (x # acc) r
             | None \<Rightarrow>
                 (case r of
                    h1 # h2 # h3 # h4 # r' \<Rightarrow>
                      (if e = CHR ''u'' \<and> h1 = CHR ''0'' \<and> h2 = CHR ''0'' then
                         (case (hex_val h3, hex_val h4) of
                            (Some a, Some b) \<Rightarrow> parse_chars (char_of (16 * a + b) # acc) r'
                          | _ \<Rightarrow> None)
                       else None)
                  | _ \<Rightarrow> None)))
     else if (of_char c :: nat) < 32 then None
     else parse_chars (c # acc) cs)"

definition parse_nat :: "string \<Rightarrow> (nat \<times> string) option" where
  "parse_nat s =
    (let ds = takeWhile is_digit s; r = dropWhile is_digit s in
     if ds = [] \<or> (hd ds = CHR ''0'' \<and> length ds > 1) then None
     else (case r of
             [] \<Rightarrow> Some (read_nat ds, r)
           | c # cs \<Rightarrow> (if c = CHR ''.'' \<or> c = CHR ''e'' \<or> c = CHR ''E'' then None
                        else Some (read_nat ds, r))))"

definition parse_number :: "string \<Rightarrow> (jsval \<times> string) option" where
  "parse_number s =
    (case s of
       [] \<Rightarrow> None
     | c # cs \<Rightarrow>
         (if c = CHR ''-'' then map_option (\<lambda>(n, r). (JNum (- int n), r)) (parse_nat cs)
          else map_option (\<lambda>(n, r). (JNum (int n), r)) (parse_nat s)))"

definition strip_prefix :: "string \<Rightarrow> string \<Rightarrow> string option" where
  "strip_prefix p s = (if take (length p) s = p then Some (drop (length p) s) else None)"

fun parse_value :: "nat \<Rightarrow> string \<Rightarrow> (jsval \<times> string) option"
  and parse_elements :: "nat \<Rightarrow> jsval list \<Rightarrow> string \<Rightarrow> (jsval \<times> string) option"
  and parse_members :: "nat \<Rightarrow> (string \<times> jsval) list \<Rightarrow> string \<Rightarrow> (jsval \<times> string) option" where
  "parse_value 0 s = None"
| "parse_value (Suc n) s =
    (case s of
       [] \<Rightarrow> None
     | c # cs \<Rightarrow>
         (if c = CHR ''{'' then
            (case skip_ws cs of
               [] \<Rightarrow> None
             | d # ds \<Rightarrow> (if d = CHR ''}'' then Some (JObj [], ds) else parse_members n [] (d # ds)))
          else if c = CHR ''['' then
            (case skip_ws cs of
               [] \<Rightarrow> None
             | d # ds \<Rightarrow> (if d = CHR '']'' then Some (JArr [], ds) else parse_elements n [] (d # ds)))
          else if c = dquote then map_option (\<lambda>(t, r). (JStr t, r)) (parse_chars [] cs)
          else if c = CHR ''n'' then map_option (Pair JNull) (strip_prefix ''null'' s)
          else if c = CHR ''t'' then map_option (Pair (JBool True)) (strip_prefix ''true'' s)
          else if c = CHR ''f'' then map_option (Pair (JBool False)) (strip_prefix ''false'' s)
          else parse_number s))"
| "parse_elements 0 acc s = None"
| "parse_elements (Suc n) acc s =
    (case parse_value n s of
       None \<Rightarrow> None
     | Some (v, r) \<Rightarrow>
         (case skip_ws r of
            [] \<Rightarrow> None
          | d # ds \<Rightarrow>
              (if d = CHR '','' then parse_elements n (acc @ [v]) (skip_ws ds)
               else if d = CHR '']'' then Some (JArr (acc @ [v]), ds)
               else None)))"
| "parse_members 0 acc s = None"
| "parse_members (Suc n) acc s =
    (case s of
       [] \<Rightarrow> None
     | q # cs \<Rightarrow>
         (if q \<noteq> dquote then None
          else
            (case parse_chars [] cs of
               None \<Rightarrow> None
             | Some (k, r) \<Rightarrow>
                 (case skip_ws r of
                    [] \<Rightarrow> None
                  | d # ds \<Rightarrow>
                      (if d \<noteq> CHR '':'' then None
                       else
                         (case parse_value n (skip_ws ds) of
                            None \<Rightarrow> None
                          | Some (v, r') \<Rightarrow>
                              (case skip_ws r' of
                                 [] \<Rightarrow> None
                               | d' # ds' \<Rightarrow>
                                   (if d' = CHR '','' then
                                      parse_members n (AList.update k v acc) (skip_ws ds')
                                    else if d' = CHR ''}'' then
                                      Some (JObj (AList.update k v acc), ds')
                                    else None))))))))"

definition js_parse :: "string \<Rightarrow> exn + jsval" where
  "js_parse s =
    (case parse_value (length s) (skip_ws s) of
       Some (v, r) \<Rightarrow> (if skip_ws r = [] then Inr v else Inl SyntaxError)
     | None \<Rightarrow> Inl SyntaxError)"

text \<open>
  The number of a string, on the same fragment: white space around it is dropped, the
  empty string is \<open>0\<close>, a decimal numeral may carry a sign, and an unsigned numeral may
  be hexadecimal, octal or binary. A numeral with a fraction or an exponent is outside
  the fragment and is answered as one that denotes no integer.
\<close>

definition is_space :: "char \<Rightarrow> bool" where
  "is_space c = (c = CHR '' '' \<or> c = CHR 0x09 \<or> c = CHR 0x0A \<or> c = CHR 0x0B \<or> c = CHR 0x0C
    \<or> c = CHR 0x0D \<or> c = CHR 0xA0)"

definition trim :: "string \<Rightarrow> string" where
  "trim s = rev (dropWhile is_space (rev (dropWhile is_space s)))"

definition digits_in :: "nat \<Rightarrow> string \<Rightarrow> bool" where
  "digits_in b cs =
    (cs \<noteq> [] \<and> list_all (\<lambda>c. case hex_val c of Some d \<Rightarrow> d < b | None \<Rightarrow> False) cs)"

definition read_base :: "nat \<Rightarrow> string \<Rightarrow> nat" where
  "read_base b cs = foldl (\<lambda>n c. b * n + (case hex_val c of Some d \<Rightarrow> d | None \<Rightarrow> 0)) 0 cs"

definition js_to_number :: "string \<Rightarrow> int option" where
  "js_to_number s =
    (let t = trim s in
     if t = [] then Some 0
     else if (take 2 t = ''0x'' \<or> take 2 t = ''0X'') then
       (if digits_in 16 (drop 2 t) then Some (int (read_base 16 (drop 2 t))) else None)
     else if (take 2 t = ''0o'' \<or> take 2 t = ''0O'') then
       (if digits_in 8 (drop 2 t) then Some (int (read_base 8 (drop 2 t))) else None)
     else if (take 2 t = ''0b'' \<or> take 2 t = ''0B'') then
       (if digits_in 2 (drop 2 t) then Some (int (read_base 2 (drop 2 t))) else None)
     else
       (case t of
          c # cs \<Rightarrow>
            (if c = CHR ''-'' then
               (if digits_in 10 cs then Some (- int (read_nat cs)) else None)
             else if c = CHR ''+'' then
               (if digits_in 10 cs then Some (int (read_nat cs)) else None)
             else (if digits_in 10 t then Some (int (read_nat t)) else None))
        | [] \<Rightarrow> Some 0))"

definition js :: runtime where
  "js = \<lparr>JSON_parse = js_parse, JSON_stringify = js_stringify, StringToNumber = js_to_number\<rparr>"

text \<open>
  Two backends that keep one string per key. The immediate one answers as
  \<^verbatim>\<open>localStorage\<close> does (\<^verbatim>\<open>null\<close> for a missing key); the deferred one answers with promises
  that are fulfilled (with \<^verbatim>\<open>null\<close> for a missing key, as React Native's
  \<^verbatim>\<open>AsyncStorage\<close> does).
\<close>

datatype mode = Immediate | Deferred

type_synonym store = "skey \<Rightarrow> string option"

definition mem_storage :: "mode \<Rightarrow> store PersistStorage" where
  "mem_storage m =
    \<lparr>setItem = (\<lambda>k text s.
        ((case m of Immediate \<Rightarrow> SetVoid | Deferred \<Rightarrow> SetPromise (Fulfilled ())),
         s(k := Some text))),
     getItem = (\<lambda>k s.
        ((case m of
            Immediate \<Rightarrow> (case s k of None \<Rightarrow> GetNull | Some text \<Rightarrow> GetString text)
          | Deferred \<Rightarrow>
              GetPromise (Fulfilled (case s k of None \<Rightarrow> RNull | Some text \<Rightarrow> RString text))),
         s))\<rparr>"

text \<open>
  A backend whose promises reject, and a full one: it answers reads at once and throws
  on every write.
\<close>

definition rejecting_storage :: "exn \<Rightarrow> store PersistStorage" where
  "rejecting_storage x =
    \<lparr>setItem = (\<lambda>k text s. (SetPromise (Rejected x), s)),
     getItem = (\<lambda>k s. (GetPromise (Rejected x), s))\<rparr>"

definition full_storage :: "exn \<Rightarrow> store PersistStorage" where
  "full_storage x =
    \<lparr>setItem = (\<lambda>k text s. (SetThrows x, s)),
     getItem = getItem (mem_storage Immediate)\<rparr>"

definition empty_store :: store where
  "empty_store = (\<lambda>k. None)"

definition new_world :: "'b \<Rightarrow> 'b world" where
  "new_world b = \<lparr>backend = b, key_calls = 0, trace = []\<rparr>"

section \<open>Observations\<close>

text \<open>The values pushed into cells, and the keys the storage calls were made with.\<close>

fun setSelf_calls :: "event list \<Rightarrow> jsval list" where
  "setSelf_calls [] = []"
| "setSelf_calls (E_setSelf v # es) = v # setSelf_calls es"
| "setSelf_calls (e # es) = setSelf_calls es"

fun storage_keys :: "event list \<Rightarrow> skey list" where
  "storage_keys [] = []"
| "storage_keys (E_getItem k # es) = k # storage_keys es"
| "storage_keys (E_setItem k text # es) = k # storage_keys es"
| "storage_keys (e # es) = storage_keys es"

fun unhandled :: "event list \<Rightarrow> exn list" where
  "unhandled [] = []"
| "unhandled (E_unhandled x # es) = x # unhandled es"
| "unhandled (e # es) = unhandled es"

section \<open>Concrete contexts\<close>

text \<open>
  An execution context with no \<^verbatim>\<open>window\<close> (a server), and a browser whose
  \<^verbatim>\<open>localStorage\<close> is the immediate backend.
\<close>

definition node_env :: "store env" where
  "node_env = \<lparr>window_defined = False, localStorage = None\<rparr>"

definition browser_env :: "store env" where
  "browser_env = \<lparr>window_defined = True, localStorage = Some (mem_storage Immediate)\<rparr>"

text \<open>The configuration leaves \<^verbatim>\<open>key\<close> out (or is left out itself).\<close>

definition key_omitted :: "'b PersistConfiguration option \<Rightarrow> bool" where
  "key_omitted config = (case config of None \<Rightarrow> True | Some cfg \<Rightarrow> key cfg = KeyOmitted)"

text \<open>The key function \<^verbatim>\<open>() => "k-" + counter++\<close>.\<close>

definition counter_key :: "nat \<Rightarrow> string" where
  "counter_key n = ''k-'' @ show_nat n"

definition count_cell :: effect_args where
  "count_cell = \<lparr>node_key = ''count'', trigger = TriggerGet\<rparr>"

text \<open>
  An effect on the key \<^verbatim>\<open>demo\<close> with no serializer, on either reference backend and on
  the backend whose promises reject; a world whose backend holds one text under that key.
\<close>

definition demo_closure :: "mode \<Rightarrow> store closure" where
  "demo_closure m =
    \<lparr>c_storage = mem_storage m, c_serialize = None, c_deserialize = None,
     c_key = KString ''demo''\<rparr>"

definition offline_closure :: "store closure" where
  "offline_closure =
    \<lparr>c_storage = rejecting_storage (Thrown (JStr ''offline'')), c_serialize = None,
     c_deserialize = None, c_key = KString ''demo''\<rparr>"

definition full_closure :: "store closure" where
  "full_closure =
    \<lparr>c_storage = full_storage (Thrown (JStr ''quota'')), c_serialize = None,
     c_deserialize = None, c_key = KString ''demo''\<rparr>"

definition demo_world :: "string \<Rightarrow> store world" where
  "demo_world text = new_world (empty_store(KString ''demo'' := Some text))"

section \<open>Properties of snapshots and of traces\<close>

text \<open>A snapshot that is a mapping, not a primitive.\<close>

definition is_mapping :: "jsval \<Rightarrow> bool" where
  "is_mapping v = (case v of JObj ps \<Rightarrow> True | _ \<Rightarrow> False)"

text \<open>What \<^verbatim>\<open>push_if_present\<close> passes to \<^verbatim>\<open>setSelf\<close>, and the texts given to \<^verbatim>\<open>setItem\<close>.\<close>

definition pushed :: "'b closure \<Rightarrow> string \<Rightarrow> jsval \<Rightarrow> jsval list" where
  "pushed c k s =
    (case hasOwnProperty s k of
       Inl x \<Rightarrow> []
     | Inr has \<Rightarrow>
         (if has then [case c_deserialize c of Some d \<Rightarrow> d (get_prop s k) | None \<Rightarrow> get_prop s k]
          else []))"

fun written :: "event list \<Rightarrow> string list" where
  "written [] = []"
| "written (E_setItem k text # es) = text # written es"
| "written (e # es) = written es"

section \<open>A configured serializer\<close>

text \<open>
  A serializer and a deserializer a caller may configure: \<^verbatim>\<open>JSON.stringify\<close> and
  \<^verbatim>\<open>JSON.parse\<close> themselves, as the reference runtime has them.
\<close>

definition json_serialize :: "jsval \<Rightarrow> string" where
  "json_serialize v = (case js_stringify v of Inr blob \<Rightarrow> blob | Inl x \<Rightarrow> [])"

definition json_deserialize :: "jsval \<Rightarrow> jsval" where
  "json_deserialize v =
    (case v of
       JStr blob \<Rightarrow> (case js_parse blob of Inr x \<Rightarrow> x | Inl x \<Rightarrow> JUndefined)
     | _ \<Rightarrow> JUndefined)"

definition serial_closure :: "mode \<Rightarrow> store closure" where
  "serial_closure m =
    \<lparr>c_storage = mem_storage m, c_serialize = Some json_serialize,
     c_deserialize = Some json_deserialize, c_key = KString ''demo''\<rparr>"

section \<open>The values of JSON\<close>

text \<open>
  The values that \<^verbatim>\<open>JSON.parse\<close> can return: no \<^verbatim>\<open>undefined\<close>, no instance of a class, and
  no name twice in an object.
\<close>

fun json_value :: "jsval \<Rightarrow> bool"
  and json_values :: "jsval list \<Rightarrow> bool"
  and json_members :: "(string \<times> jsval) list \<Rightarrow> bool" where
  "json_value JUndefined = False"
| "json_value JNull = True"
| "json_value (JBool b) = True"
| "json_value (JNum n) = True"
| "json_value (JStr s) = True"
| "json_value (JArr xs) = json_values xs"
| "json_value (JObj ps) = (json_members ps \<and> distinct (map fst ps))"
| "json_value JDefaultValue = False"
| "json_values [] = True"
| "json_values (x # xs) = (json_value x \<and> json_values xs)"
| "json_members [] = True"
| "json_members ((k, x) # ps) = (json_value x \<and> json_members ps)"

text \<open>
  The nesting the parser has to follow in a value: a bound on the fuel it needs.
\<close>

fun fuel_value :: "jsval \<Rightarrow> nat"
  and fuel_elements :: "jsval list \<Rightarrow> nat"
  and fuel_members :: "(string \<times> jsval) list \<Rightarrow> nat" where
  "fuel_value (JArr xs) = Suc (fuel_elements xs)"
| "fuel_value (JObj ps) = Suc (fuel_members ps)"
| "fuel_value v = Suc 0"
| "fuel_elements [] = 0"
| "fuel_elements (x # xs) = Suc (max (fuel_value x) (fuel_elements xs))"
| "fuel_members [] = 0"
| "fuel_members ((k, x) # ps) = Suc (max (fuel_value x) (fuel_members ps))"

text \<open>
  The characters a value's text starts with, and what follows a value in a text that
  \<^verbatim>\<open>JSON.stringify\<close> wrote: a comma, a closing bracket or brace, or nothing.
\<close>

definition value_start :: "char \<Rightarrow> bool" where
  "value_start c =
    (c = CHR ''{'' \<or> c = CHR ''['' \<or> c = dquote \<or> c = CHR ''-'' \<or> c = CHR ''n''
     \<or> c = CHR ''t'' \<or> c = CHR ''f'' \<or> is_digit c)"

definition ok_rest :: "string \<Rightarrow> bool" where
  "ok_rest r = (case r of [] \<Rightarrow> True | c # cs \<Rightarrow> c = CHR '','' \<or> c = CHR ''}'' \<or> c = CHR '']'')"

section \<open>Basic facts\<close>

lemma key_calls_emit [simp]: "key_calls (emit ev w) = key_calls w"
  by (simp add: emit_def)

lemma trace_emit [simp]: "trace (emit ev w) = trace w @ [ev]"
  by (simp add: emit_def)

lemma backend_emit [simp]: "backend (emit ev w) = backend w"
  by (simp add: emit_def)

lemma storage_keys_append [simp]: "storage_keys (xs @ ys) = storage_keys xs @ storage_keys ys"
  by (induction xs rule: storage_keys.induct) simp_all

lemma setSelf_calls_append [simp]: "setSelf_calls (xs @ ys) = setSelf_calls xs @ setSelf_calls ys"
  by (induction xs rule: setSelf_calls.induct) simp_all

lemma unhandled_append [simp]: "unhandled (xs @ ys) = unhandled xs @ unhandled ys"
  by (induction xs rule: unhandled.induct) simp_all

subsection \<open>The key function is called by the factory only\<close>

lemma key_calls_parseState [simp]: "key_calls (snd (parseState rt r w)) = key_calls w"
  by (simp add: parseState_def split: sum.splits)

lemma key_calls_getState [simp]: "key_calls (snd (getState rt c w)) = key_calls w"
  by (simp add: getState_def Let_def case_prod_beta split: getres.splits)

lemma key_calls_settle [simp]: "key_calls (snd (settle rt st w)) = key_calls w"
  by (simp add: settle_def Let_def case_prod_beta split: snapshot.splits promise.splits)

lemma key_calls_read_snapshot [simp]: "key_calls (snd (read_snapshot rt c w)) = key_calls w"
  by (simp add: read_snapshot_def case_prod_beta split: sum.splits)

lemma key_calls_setState [simp]: "key_calls (setState rt c state w) = key_calls w"
  by (simp add: setState_def Let_def case_prod_beta split: sum.splits setres.splits promise.splits)

lemma key_calls_push [simp]: "key_calls (snd (push_if_present c k s w)) = key_calls w"
  by (simp add: push_if_present_def split: sum.splits)

lemma key_calls_persistAtom [simp]: "key_calls (snd (persistAtom rt c a w)) = key_calls w"
  by (simp add: persistAtom_def Let_def case_prod_beta
      split: sum.splits snapshot.splits option.splits)

lemma key_calls_then_callback [simp]: "key_calls (then_callback rt c k p w) = key_calls w"
  by (simp add: then_callback_def Let_def case_prod_beta
      split: promise.splits option.splits)

lemma key_calls_attach [simp]: "key_calls (snd (attach rt eff a w)) = key_calls w"
  by (simp add: attach_def Let_def case_prod_beta
      split: AtomEffect.splits option.splits)

lemma key_calls_onSet_handler [simp]: "key_calls (snd (onSet_handler rt c k v w)) = key_calls w"
  by (simp add: onSet_handler_def Let_def case_prod_beta
      split: sum.splits promise.splits)

lemma key_calls_fire_onSet [simp]: "key_calls (fire_onSet rt c k v w) = key_calls w"
  by (simp add: fire_onSet_def Let_def case_prod_beta
      split: promise.splits)

subsection \<open>The key of every storage call\<close>

lemma keys_parseState [simp]:
  "storage_keys (trace (snd (parseState rt r w))) = storage_keys (trace w)"
  by (simp add: parseState_def split: sum.splits)

lemma keys_getState [simp]:
  "storage_keys (trace (snd (getState rt c w))) = storage_keys (trace w) @ [c_key c]"
  by (simp add: getState_def Let_def case_prod_beta split: getres.splits)

lemma keys_settle [simp]:
  "storage_keys (trace (snd (settle rt st w))) = storage_keys (trace w)"
  by (simp add: settle_def Let_def case_prod_beta split: snapshot.splits promise.splits)

lemma keys_read_snapshot [simp]:
  "storage_keys (trace (snd (read_snapshot rt c w))) = storage_keys (trace w) @ [c_key c]"
  by (simp add: read_snapshot_def case_prod_beta split: sum.splits)

lemma keys_setState:
  "storage_keys (trace (setState rt c state w)) =
    storage_keys (trace w) @ (case JSON_stringify rt state of Inl x \<Rightarrow> [] | Inr text \<Rightarrow> [c_key c])"
  by (simp add: setState_def Let_def case_prod_beta split: sum.splits setres.splits promise.splits)

lemma keys_push [simp]:
  "storage_keys (trace (snd (push_if_present c k s w))) = storage_keys (trace w)"
  by (simp add: push_if_present_def split: sum.splits)

lemma keys_persistAtom:
  "storage_keys (trace (snd (persistAtom rt c a w))) =
    storage_keys (trace w) @ (if trigger a = TriggerGet then [c_key c] else [])"
  by (simp add: persistAtom_def Let_def case_prod_beta
      split: sum.splits snapshot.splits option.splits)

lemma keys_then_callback [simp]:
  "storage_keys (trace (then_callback rt c k p w)) = storage_keys (trace w)"
  by (simp add: then_callback_def Let_def case_prod_beta
      split: promise.splits option.splits)

lemma keys_attach:
  "storage_keys (trace (snd (attach rt (PersistAtom c) a w))) =
    storage_keys (trace w) @ (if trigger a = TriggerGet then [c_key c] else [])"
  by (simp add: attach_def keys_persistAtom Let_def case_prod_beta
      split: option.splits)

lemma keys_onSet_handler:
  "storage_keys (trace (snd (onSet_handler rt c k v w))) = storage_keys (trace w) @ [c_key c]
   \<or> storage_keys (trace (snd (onSet_handler rt c k v w))) =
       storage_keys (trace w) @ [c_key c, c_key c]"
  by (simp add: onSet_handler_def keys_setState Let_def case_prod_beta
      split: sum.splits promise.splits)

lemma keys_fire_onSet:
  "storage_keys (trace (fire_onSet rt c k v w)) = storage_keys (trace w) @ [c_key c]
   \<or> storage_keys (trace (fire_onSet rt c k v w)) = storage_keys (trace w) @ [c_key c, c_key c]"
  using keys_onSet_handler [of rt c k v w]
  by (simp add: fire_onSet_def Let_def case_prod_beta split: promise.splits)

subsection \<open>Reading the snapshot\<close>

lemma written_append [simp]: "written (xs @ ys) = written xs @ written ys"
  by (induction xs rule: written.induct) simp_all

lemma parseState_string:
  "parseState rt (RString s) w =
    (case JSON_parse rt s of
       Inr v \<Rightarrow> (v, w)
     | Inl x \<Rightarrow> (JObj [], emit (E_console_error x) w))"
  by (simp add: parseState_def to_text_def)

text \<open>
  A string that comes at once and the same string brought by a promise end in the
  same snapshot and the same world.
\<close>

lemma read_snapshot_string:
  assumes "getItem (c_storage c) (c_key c) (backend w) = (r, b)"
    and "r = GetString s \<or> r = GetPromise (Fulfilled (RString s))"
  shows "read_snapshot rt c w =
    apfst Fulfilled (parseState rt (RString s) (emit (E_getItem (c_key c)) (w\<lparr>backend := b\<rparr>)))"
  using assms
  by (auto simp add: read_snapshot_def getState_def settle_def Let_def case_prod_beta apfst_def
      map_prod_def)

lemma read_snapshot_absent:
  assumes "getItem (c_storage c) (c_key c) (backend w) = (r, b)"
    and "r = GetNull \<or> r = GetUndefined \<or> r = GetOther"
  shows "read_snapshot rt c w = (Fulfilled (JObj []), emit (E_getItem (c_key c)) (w\<lparr>backend := b\<rparr>))"
  using assms
  by (auto simp add: read_snapshot_def getState_def settle_def Let_def)

lemma read_snapshot_rejected:
  assumes "getItem (c_storage c) (c_key c) (backend w) = (GetPromise (Rejected x), b)"
  shows "read_snapshot rt c w = (Rejected x, emit (E_getItem (c_key c)) (w\<lparr>backend := b\<rparr>))"
  using assms
  by (simp add: read_snapshot_def getState_def settle_def Let_def)

lemma setSelf_push [simp]:
  "setSelf_calls (trace (snd (push_if_present c k s w))) = setSelf_calls (trace w) @ pushed c k s"
  by (simp add: push_if_present_def pushed_def split: sum.splits)

lemma setSelf_parseState [simp]:
  "setSelf_calls (trace (snd (parseState rt r w))) = setSelf_calls (trace w)"
  by (simp add: parseState_def split: sum.splits)

lemma pushed_no_property:
  "then_is_function v = Inl x \<Longrightarrow> pushed c k v = []"
  by (auto simp add: then_is_function_def pushed_def hasOwnProperty_def split: if_splits)

text \<open>
  On initialization, what reaches \<^verbatim>\<open>setSelf\<close> is decided by the snapshot alone, whether
  it came at once or by a promise.
\<close>

lemma attach_get_string:
  assumes "getItem (c_storage c) (c_key c) (backend w) = (r, b)"
    and "r = GetString s \<or> r = GetPromise (Fulfilled (RString s))"
    and "trigger a = TriggerGet"
  shows "setSelf_calls (trace (snd (attach rt (PersistAtom c) a w))) =
    setSelf_calls (trace w)
      @ pushed c (node_key a) (case JSON_parse rt s of Inr v \<Rightarrow> v | Inl x \<Rightarrow> JObj [])"
proof -
  from assms(2) show ?thesis
  proof
    assume r: "r = GetString s"
    show ?thesis
    proof (cases "JSON_parse rt s")
      case (Inl x)
      with assms(1,3) r show ?thesis
        by (simp add: attach_def persistAtom_def getState_def parseState_string Let_def
            then_is_function_def case_prod_beta split: option.splits)
    next
      case (Inr v)
      show ?thesis
      proof (cases "then_is_function v")
        case (Inl x)
        with assms(1,3) r Inr pushed_no_property [OF Inl] show ?thesis
          by (simp add: attach_def persistAtom_def getState_def parseState_string Let_def)
      next
        case (Inr f)
        with assms(1,3) r \<open>JSON_parse rt s = Inr v\<close> show ?thesis
          by (simp add: attach_def persistAtom_def getState_def parseState_string Let_def
              case_prod_beta split: option.splits)
      qed
    qed
  next
    assume r: "r = GetPromise (Fulfilled (RString s))"
    with assms(1,3) show ?thesis
      by (simp add: attach_def persistAtom_def getState_def then_callback_def settle_def
          parseState_string Let_def case_prod_beta split: option.splits sum.splits)
  qed
qed

subsection \<open>What the handler writes\<close>

lemma written_parseState [simp]:
  "written (trace (snd (parseState rt r w))) = written (trace w)"
  by (simp add: parseState_def split: sum.splits)

lemma written_read_snapshot [simp]:
  "written (trace (snd (read_snapshot rt c w))) = written (trace w)"
  by (simp add: read_snapshot_def getState_def settle_def Let_def case_prod_beta
      split: sum.splits getres.splits snapshot.splits promise.splits)

lemma written_setState:
  "written (trace (setState rt c state w)) =
    written (trace w) @ (case JSON_stringify rt state of Inl x \<Rightarrow> [] | Inr blob \<Rightarrow> [blob])"
  by (simp add: setState_def Let_def case_prod_beta split: sum.splits setres.splits promise.splits)

text \<open>The one text an external set writes, if it writes.\<close>

lemma written_fire_onSet:
  "written (trace (fire_onSet rt c k v w)) =
    written (trace w)
      @ (case fst (read_snapshot rt c w) of
           Fulfilled state \<Rightarrow>
             (case update_entry rt c k v state of
                Inl x \<Rightarrow> []
              | Inr state' \<Rightarrow>
                  (case JSON_stringify rt state' of Inl x \<Rightarrow> [] | Inr blob \<Rightarrow> [blob]))
         | Rejected x \<Rightarrow> []
         | Pending \<Rightarrow> [])"
  by (simp add: fire_onSet_def onSet_handler_def written_setState case_prod_beta
      split: promise.splits sum.splits)

lemma attach_other_trigger:
  "trigger a \<noteq> TriggerGet \<Longrightarrow>
    setSelf_calls (trace (snd (attach rt (PersistAtom c) a w))) = setSelf_calls (trace w)"
  by (simp add: attach_def persistAtom_def)

lemma pushed_cong:
  "c_deserialize c1 = c_deserialize c2 \<Longrightarrow> pushed c1 k s = pushed c2 k s"
  by (simp add: pushed_def split: sum.splits)

lemma update_entry_cong:
  "c_serialize c1 = c_serialize c2 \<Longrightarrow> update_entry rt c1 k v s = update_entry rt c2 k v s"
  by (simp add: update_entry_def split: sum.splits)

subsection \<open>The reference backends\<close>

lemma getItem_mem:
  "getItem (mem_storage m) k s =
    ((case m of
        Immediate \<Rightarrow> (case s k of None \<Rightarrow> GetNull | Some blob \<Rightarrow> GetString blob)
      | Deferred \<Rightarrow>
          GetPromise (Fulfilled (case s k of None \<Rightarrow> RNull | Some blob \<Rightarrow> RString blob))), s)"
  by (simp add: mem_storage_def)

lemma getItem_mem_string:
  assumes "s k = Some blob"
  shows "\<exists>r. getItem (mem_storage m) k s = (r, s)
    \<and> (r = GetString blob \<or> r = GetPromise (Fulfilled (RString blob)))"
  using assms by (cases m) (simp_all add: mem_storage_def)

lemma setItem_mem:
  "setItem (mem_storage m) k blob s =
    ((case m of Immediate \<Rightarrow> SetVoid | Deferred \<Rightarrow> SetPromise (Fulfilled ())), s(k := Some blob))"
  by (simp add: mem_storage_def)

lemma backend_parseState [simp]: "backend (snd (parseState rt r w)) = backend w"
  by (simp add: parseState_def split: sum.splits)

lemma unhandled_parseState [simp]:
  "unhandled (trace (snd (parseState rt r w))) = unhandled (trace w)"
  by (simp add: parseState_def split: sum.splits)

lemma read_snapshot_mem:
  assumes "c_storage c = mem_storage m"
  shows "backend (snd (read_snapshot rt c w)) = backend w"
    and "unhandled (trace (snd (read_snapshot rt c w))) = unhandled (trace w)"
    and "setSelf_calls (trace (snd (read_snapshot rt c w))) = setSelf_calls (trace w)"
  using assms
  by (cases m; cases "backend w (c_key c)";
      simp add: read_snapshot_def getState_def settle_def getItem_mem Let_def case_prod_beta)+

lemma setState_mem:
  assumes "c_storage c = mem_storage m" and "JSON_stringify rt state = Inr blob"
  shows "backend (setState rt c state w) = (backend w)(c_key c := Some blob)"
    and "unhandled (trace (setState rt c state w)) = unhandled (trace w)"
    and "setSelf_calls (trace (setState rt c state w)) = setSelf_calls (trace w)"
  using assms
  by (cases m; simp add: setState_def setItem_mem Let_def)+

text \<open>An external set whose read ends with a snapshot the update accepts.\<close>

lemma fire_onSet_fulfilled:
  assumes "read_snapshot rt c w = (Fulfilled state, w1)"
    and "update_entry rt c k v state = Inr state'"
  shows "fire_onSet rt c k v w = setState rt c state' w1"
  using assms by (simp add: fire_onSet_def onSet_handler_def)

text \<open>
  The update on a snapshot that is a mapping. A reset calls \<^verbatim>\<open>hasOwnProperty\<close>, so it
  needs a mapping in which that name is not an entry; a set of a value calls nothing.
\<close>

lemma assign_plain: "k \<noteq> ''__proto__'' \<Longrightarrow> assign k x ps = AList.update k x ps"
  by (simp add: assign_def)

lemma assign_empty: "assign k x [] = (if k = ''__proto__'' then [] else [(k, x)])"
  by (simp add: assign_def)

lemma update_entry_reset_present:
  assumes "map_of ps k \<noteq> None" and "map_of ps ''hasOwnProperty'' = None"
  shows "update_entry rt c k JDefaultValue (JObj ps) = Inr (JObj (AList.delete k ps))"
  using assms
  by (simp add: update_entry_def instanceof_DefaultValue_def hasOwnProperty_def delete_prop_def)

lemma update_entry_reset_absent:
  assumes "map_of ps k = None" and "map_of ps ''hasOwnProperty'' = None"
  shows "update_entry rt c k JDefaultValue (JObj ps) =
    Inr (JObj (assign k
      (case c_serialize c of Some f \<Rightarrow> JStr (f JDefaultValue) | None \<Rightarrow> JDefaultValue) ps))"
  using assms
  by (simp add: update_entry_def instanceof_DefaultValue_def hasOwnProperty_def set_prop_def)

lemma update_entry_value:
  assumes "v \<noteq> JDefaultValue"
  shows "update_entry rt c k v (JObj ps) =
    Inr (JObj (assign k (case c_serialize c of Some f \<Rightarrow> JStr (f v) | None \<Rightarrow> v) ps))"
  using assms
  by (simp add: update_entry_def instanceof_DefaultValue_def set_prop_def)

lemma update_entry_empty:
  "update_entry rt c k v (JObj []) =
    Inr (JObj (assign k (case c_serialize c of Some f \<Rightarrow> JStr (f v) | None \<Rightarrow> v) []))"
  by (simp add: update_entry_def instanceof_DefaultValue_def hasOwnProperty_def set_prop_def)

text \<open>
  An attachment with trigger \<^verbatim>\<open>get\<close> that finds a string whose parse is a mapping with no
  entry named \<^verbatim>\<open>hasOwnProperty\<close> throws nothing.
\<close>

lemma attach_get_mapping:
  assumes "getItem (c_storage c) (c_key c) (backend w) = (r, b)"
    and "r = GetString s \<or> r = GetPromise (Fulfilled (RString s))"
    and "JSON_parse rt s = Inr (JObj ps)"
    and "map_of ps ''hasOwnProperty'' = None"
  shows "fst (attach rt (PersistAtom c) \<lparr>node_key = k, trigger = TriggerGet\<rparr> w) = None"
  using assms
  by (auto simp add: attach_def persistAtom_def getState_def parseState_string Let_def
      then_is_function_def push_if_present_def hasOwnProperty_def case_prod_beta
      split: option.splits)

text \<open>
  An external set on a reference backend, when the read ends with a snapshot that the
  update accepts and that \<^verbatim>\<open>JSON.stringify\<close> turns into a text: the text replaces what the
  backend held, nothing reaches \<^verbatim>\<open>setSelf\<close>, no rejection is left.
\<close>

lemma fire_onSet_mem:
  assumes "c_storage c = mem_storage m"
    and "fst (read_snapshot rt c w) = Fulfilled state"
    and "update_entry rt c k v state = Inr state'"
    and "JSON_stringify rt state' = Inr blob"
  shows "backend (fire_onSet rt c k v w) = (backend w)(c_key c := Some blob)"
    and "written (trace (fire_onSet rt c k v w)) = written (trace w) @ [blob]"
    and "unhandled (trace (fire_onSet rt c k v w)) = unhandled (trace w)"
    and "setSelf_calls (trace (fire_onSet rt c k v w)) = setSelf_calls (trace w)"
proof -
  obtain w1 where read: "read_snapshot rt c w = (Fulfilled state, w1)"
    using assms(2) by (cases "read_snapshot rt c w") simp
  have w1: "backend w1 = backend w" "unhandled (trace w1) = unhandled (trace w)"
    "setSelf_calls (trace w1) = setSelf_calls (trace w)"
    using read_snapshot_mem [OF assms(1), of rt w] read by simp_all
  have fired: "fire_onSet rt c k v w = setState rt c state' w1"
    by (rule fire_onSet_fulfilled [OF read assms(3)])
  show "backend (fire_onSet rt c k v w) = (backend w)(c_key c := Some blob)"
    and "unhandled (trace (fire_onSet rt c k v w)) = unhandled (trace w)"
    and "setSelf_calls (trace (fire_onSet rt c k v w)) = setSelf_calls (trace w)"
    using setState_mem [OF assms(1,4), of w1] w1 by (simp_all add: fired)
  show "written (trace (fire_onSet rt c k v w)) = written (trace w) @ [blob]"
    using assms(2,3,4) by (simp add: written_fire_onSet)
qed

text \<open>
  An attachment with trigger \<^verbatim>\<open>get\<close> on a reference backend that holds a text whose parse
  is a mapping with no entry named \<^verbatim>\<open>hasOwnProperty\<close>: it throws nothing and pushes the
  cell's entry, if there is one.
\<close>

lemma attach_mem_mapping:
  assumes "c_storage c = mem_storage m"
    and "backend w (c_key c) = Some blob"
    and "JSON_parse rt blob = Inr (JObj ps)"
    and "map_of ps ''hasOwnProperty'' = None"
  shows "fst (attach rt (PersistAtom c) \<lparr>node_key = k, trigger = TriggerGet\<rparr> w) = None"
    and "setSelf_calls (trace (snd (attach rt (PersistAtom c)
            \<lparr>node_key = k, trigger = TriggerGet\<rparr> w)))
        = setSelf_calls (trace w) @ pushed c k (JObj ps)"
proof -
  from getItem_mem_string [where s = "backend w" and k = "c_key c" and blob = blob and m = m]
    assms(1,2)
  obtain r where r: "getItem (c_storage c) (c_key c) (backend w) = (r, backend w)"
    and shape: "r = GetString blob \<or> r = GetPromise (Fulfilled (RString blob))"
    by auto
  show "fst (attach rt (PersistAtom c) \<lparr>node_key = k, trigger = TriggerGet\<rparr> w) = None"
    by (rule attach_get_mapping [OF r shape assms(3,4)])
  show "setSelf_calls (trace (snd (attach rt (PersistAtom c)
            \<lparr>node_key = k, trigger = TriggerGet\<rparr> w)))
        = setSelf_calls (trace w) @ pushed c k (JObj ps)"
    using attach_get_string [OF r shape, of "\<lparr>node_key = k, trigger = TriggerGet\<rparr>" rt] assms(3)
    by simp
qed

lemma read_snapshot_malformed:
  assumes "c_storage c = mem_storage m"
    and "backend w (c_key c) = Some s"
    and "JSON_parse rt s = Inl x"
  shows "fst (read_snapshot rt c w) = Fulfilled (JObj [])"
    and "\<exists>st. fst (getState rt c w) = Inr st"
proof -
  from getItem_mem_string [where s = "backend w" and k = "c_key c" and blob = s and m = m]
    assms(1,2)
  obtain r where r: "getItem (c_storage c) (c_key c) (backend w) = (r, backend w)"
    and shape: "r = GetString s \<or> r = GetPromise (Fulfilled (RString s))"
    by auto
  show "fst (read_snapshot rt c w) = Fulfilled (JObj [])"
    using read_snapshot_string [OF r shape, of rt] assms(3)
    by (simp add: parseState_string)
  show "\<exists>st. fst (getState rt c w) = Inr st"
    using r shape by (auto simp add: getState_def Let_def case_prod_beta)
qed

section \<open>The reference runtime reads back what it writes\<close>

subsection \<open>Numerals\<close>

lemma digit_char_digit: "d < 10 \<Longrightarrow> is_digit (digit_char d)"
  by (simp add: is_digit_def digit_char_def)

lemma digit_val_digit_char: "d < 10 \<Longrightarrow> digit_val (digit_char d) = d"
  by (simp add: digit_val_def digit_char_def)

lemma show_nat_digits: "list_all is_digit (show_nat n)"
  by (induction n rule: show_nat.induct) (subst show_nat.simps, simp add: digit_char_digit)

lemma show_nat_not_empty: "show_nat n \<noteq> []"
  by (subst show_nat.simps) simp

lemma read_nat_snoc: "read_nat (ds @ [c]) = 10 * read_nat ds + digit_val c"
  by (simp add: read_nat_def)

lemma read_nat_show_nat: "read_nat (show_nat n) = n"
proof (induction n rule: show_nat.induct)
  case (1 n)
  show ?case
  proof (cases "n < 10")
    case True
    then show ?thesis
      by (subst show_nat.simps) (simp add: read_nat_def digit_val_digit_char)
  next
    case False
    with 1 show ?thesis
      by (subst show_nat.simps) (simp add: read_nat_snoc digit_val_digit_char)
  qed
qed

lemma show_nat_leading: "0 < n \<Longrightarrow> hd (show_nat n) \<noteq> CHR ''0''"
proof (induction n rule: show_nat.induct)
  case (1 n)
  show ?case
  proof (cases "n < 10")
    case True
    with 1(2) show ?thesis
      by (subst show_nat.simps) (simp add: digit_char_def char_of_eq_iff take_bit_eq_mod)
  next
    case False
    then have "0 < n div 10"
      by simp
    with 1(1) False show ?thesis
      by (subst show_nat.simps) (simp add: show_nat_not_empty)
  qed
qed

lemma show_nat_zero: "show_nat 0 = ''0''"
  by (subst show_nat.simps) (simp add: digit_char_def char_of_eq_iff)

text \<open>What may follow a value in a text that \<^verbatim>\<open>JSON.stringify\<close> wrote.\<close>

lemma takeWhile_digits:
  assumes "list_all is_digit ds" and "r = [] \<or> \<not> is_digit (hd r)"
  shows "takeWhile is_digit (ds @ r) = ds" and "dropWhile is_digit (ds @ r) = r"
  using assms by (cases r; induction ds; simp)+

lemma parse_nat_show_nat:
  assumes "ok_rest r"
  shows "parse_nat (show_nat n @ r) = Some (n, r)"
proof -
  have follow: "r = [] \<or> \<not> is_digit (hd r)"
    using assms by (auto simp add: ok_rest_def is_digit_def split: list.splits)
  have leading: "\<not> (hd (show_nat n) = CHR ''0'' \<and> 1 < length (show_nat n))"
    using show_nat_leading [of n] show_nat_zero by (cases "n = 0") auto
  have stop: "case r of [] \<Rightarrow> True
      | c # cs \<Rightarrow> \<not> (c = CHR ''.'' \<or> c = CHR ''e'' \<or> c = CHR ''E'')"
    using assms by (auto simp add: ok_rest_def split: list.splits)
  from leading stop show ?thesis
    by (simp add: parse_nat_def takeWhile_digits [OF show_nat_digits follow] Let_def
        show_nat_not_empty read_nat_show_nat split: list.splits)
qed

lemma show_nat_head_digit: "is_digit (hd (show_nat n))"
  using show_nat_digits [of n] show_nat_not_empty [of n]
  by (cases "show_nat n") simp_all

lemma parse_number_show_int:
  assumes "ok_rest r"
  shows "parse_number (show_int i @ r) = Some (JNum i, r)"
proof (cases "i < 0")
  case True
  then show ?thesis
    by (simp add: parse_number_def show_int_def parse_nat_show_nat [OF assms])
next
  case False
  obtain c cs where shown: "show_nat (nat i) = c # cs"
    using show_nat_not_empty [of "nat i"] by (cases "show_nat (nat i)") auto
  with show_nat_head_digit [of "nat i"] have "c \<noteq> CHR ''-''"
    by (auto simp add: is_digit_def)
  with False shown parse_nat_show_nat [OF assms, of "nat i"] show ?thesis
    by (simp add: parse_number_def show_int_def)
qed

subsection \<open>Strings\<close>

lemma hex_val_hex_char: "d < 16 \<Longrightarrow> hex_val (hex_char d) = Some d"
  by (auto simp add: hex_val_def hex_char_def Let_def)

lemma parse_chars_escape:
  "parse_chars acc (escape_char c @ r) = parse_chars (c # acc) r"
proof -
  consider (quote) "c = dquote" | (slash) "c = backslash"
    | (named) "c = CHR 0x08 \<or> c = CHR 0x0C \<or> c = CHR 0x0A \<or> c = CHR 0x0D \<or> c = CHR 0x09"
    | (control) "(of_char c :: nat) < 32" "c \<noteq> CHR 0x08" "c \<noteq> CHR 0x0C" "c \<noteq> CHR 0x0A"
        "c \<noteq> CHR 0x0D" "c \<noteq> CHR 0x09"
    | (plain) "\<not> (of_char c :: nat) < 32" "c \<noteq> dquote" "c \<noteq> backslash"
    by blast
  then show ?thesis
  proof cases
    case quote
    then show ?thesis
      by (simp add: escape_char_def dquote_def backslash_def unescape_def)
  next
    case slash
    then show ?thesis
      by (simp add: escape_char_def dquote_def backslash_def unescape_def)
  next
    case named
    then show ?thesis
      by (auto simp add: escape_char_def dquote_def backslash_def unescape_def)
  next
    case control
    define n where "n = (of_char c :: nat)"
    from control(1) have high: "n div 16 < 16" and low: "n mod 16 < 16"
      by (simp_all add: n_def)
    from control(1) have other: "c \<noteq> dquote" "c \<noteq> backslash"
      by (auto simp add: dquote_def backslash_def)
    have whole: "char_of (16 * (n div 16) + n mod 16) = c"
      by (simp add: n_def)
    from control other show ?thesis
      by (simp add: escape_char_def unescape_def dquote_def backslash_def
          hex_val_hex_char [OF high, unfolded n_def] hex_val_hex_char [OF low, unfolded n_def]
          whole [unfolded n_def])
  next
    case plain
    then show ?thesis
      by (auto simp add: escape_char_def)
  qed
qed

lemma parse_chars_escaped:
  "parse_chars acc (concat (map escape_char s) @ dquote # r) = Some (rev acc @ s, r)"
  by (induction s arbitrary: acc) (simp_all add: parse_chars_escape)

lemma parse_chars_quote:
  "parse_chars [] (tl (quote s) @ r) = Some (s, r)"
  using parse_chars_escaped [of "[]" s r] by (simp add: quote_def)

subsection \<open>Values\<close>

lemma value_start_facts:
  assumes "value_start c"
  shows "\<not> is_ws c" and "c \<noteq> CHR '']''" and "c \<noteq> CHR ''}''"
  using assms by (auto simp add: value_start_def is_ws_def is_digit_def dquote_def)

lemma skip_ws_value: "t \<noteq> [] \<Longrightarrow> value_start (hd t) \<Longrightarrow> skip_ws (t @ r) = t @ r"
  by (cases t) (simp_all add: value_start_facts(1))

lemma skip_ws_rest: "ok_rest r \<Longrightarrow> skip_ws r = r"
  by (cases r) (auto simp add: ok_rest_def is_ws_def)

lemma join_comma_more: "ts \<noteq> [] \<Longrightarrow> join_comma (t # ts) = t @ CHR '','' # join_comma ts"
  by (cases ts) simp_all

lemma stringify_elements_empty: "(stringify_elements xs = []) = (xs = [])"
  by (cases xs) simp_all

lemma update_fresh: "k \<notin> fst ` set acc \<Longrightarrow> AList.update k v acc = acc @ [(k, v)]"
  by (induction acc) auto

lemma parse_value_null:
  "parse_value (Suc n) (''null'' @ r) = Some (JNull, r)"
  by (simp add: strip_prefix_def dquote_def)

lemma parse_value_bool:
  "parse_value (Suc n) ((if b then ''true'' else ''false'') @ r) = Some (JBool b, r)"
  by (simp add: strip_prefix_def dquote_def)

lemma show_int_start: "show_int i \<noteq> [] \<and> value_start (hd (show_int i))"
  using show_nat_head_digit [of "nat i"] show_nat_not_empty [of "nat i"]
  by (simp add: show_int_def value_start_def)

lemma parse_value_number:
  assumes "ok_rest r"
  shows "parse_value (Suc n) (show_int i @ r) = Some (JNum i, r)"
proof -
  obtain c cs where shown: "show_int i = c # cs"
    using show_int_start [of i] by (cases "show_int i") auto
  have "c = CHR ''-'' \<or> is_digit c"
    using show_nat_head_digit [of "nat i"] shown
    by (auto simp add: show_int_def split: if_splits)
  then have other: "c \<noteq> CHR ''{''" "c \<noteq> CHR ''[''" "c \<noteq> dquote" "c \<noteq> CHR ''n''"
    "c \<noteq> CHR ''t''" "c \<noteq> CHR ''f''"
    by (auto simp add: is_digit_def dquote_def)
  from parse_number_show_int [OF assms, of i] other show ?thesis
    by (simp add: shown)
qed

lemma parse_value_string:
  "parse_value (Suc n) (quote s @ r) = Some (JStr s, r)"
  using parse_chars_quote [of s r]
  by (simp add: quote_def dquote_def)

lemma parse_value_empty_array:
  "parse_value (Suc n) (''[]'' @ r) = Some (JArr [], r)"
  by (simp add: is_ws_def)

lemma parse_value_empty_object:
  "parse_value (Suc n) (''{}'' @ r) = Some (JObj [], r)"
  by (simp add: is_ws_def)

lemma parse_value_array:
  assumes "t \<noteq> []" and "value_start (hd t)"
    and "parse_elements n [] (t @ CHR '']'' # r) = Some res"
  shows "parse_value (Suc n) (''['' @ t @ '']'' @ r) = Some res"
proof -
  obtain d ds where t: "t = d # ds"
    using assms(1) by (cases t) auto
  with assms(2) have "\<not> is_ws d" "d \<noteq> CHR '']''"
    by (simp_all add: value_start_facts)
  with assms(3) show ?thesis
    by (simp add: t)
qed

lemma parse_value_object:
  assumes "t \<noteq> []" and "hd t = dquote"
    and "parse_members n [] (t @ CHR ''}'' # r) = Some res"
  shows "parse_value (Suc n) (''{'' @ t @ ''}'' @ r) = Some res"
proof -
  obtain ds where t: "t = dquote # ds"
    using assms(1,2) by (cases t) auto
  have "\<not> is_ws dquote" "dquote \<noteq> CHR ''}''"
    by (simp_all add: is_ws_def dquote_def)
  with assms(3) show ?thesis
    by (simp add: t)
qed

lemma parse_elements_step:
  assumes "parse_value n (t @ d # r) = Some (x, d # r)"
    and "d = CHR '','' \<or> d = CHR '']''"
  shows "parse_elements (Suc n) acc (t @ d # r) =
    (if d = CHR '','' then parse_elements n (acc @ [x]) (skip_ws r)
     else Some (JArr (acc @ [x]), r))"
  using assms by (auto simp add: is_ws_def)

lemma parse_members_step:
  assumes "parse_value n (t @ d # r) = Some (x, d # r)"
    and "d = CHR '','' \<or> d = CHR ''}''"
    and "t \<noteq> []" and "value_start (hd t)"
  shows "parse_members (Suc n) acc (quote k @ '':'' @ t @ d # r) =
    (if d = CHR '','' then parse_members n (AList.update k x acc) (skip_ws r)
     else Some (JObj (AList.update k x acc), r))"
proof -
  have key: "parse_chars [] (tl (quote k) @ CHR '':'' # t @ d # r)
      = Some (k, CHR '':'' # t @ d # r)"
    by (rule parse_chars_quote)
  have val: "skip_ws (t @ d # r) = t @ d # r"
    by (rule skip_ws_value [OF assms(3,4)])
  from assms(1,2) key val show ?thesis
    by (auto simp add: quote_def is_ws_def)
qed

text \<open>
  The parser reads back each value where \<^verbatim>\<open>JSON.stringify\<close> wrote it, with fuel for its
  nesting, whatever text of a list or an object follows.
\<close>

lemma parse_after_stringify:
  shows "json_value v \<Longrightarrow>
      \<exists>t. stringify_value v = Some t \<and> t \<noteq> [] \<and> value_start (hd t)
        \<and> fuel_value v \<le> length t
        \<and> (\<forall>n r. fuel_value v \<le> n \<longrightarrow> ok_rest r \<longrightarrow> parse_value n (t @ r) = Some (v, r))"
    and "json_values xs \<Longrightarrow> xs \<noteq> [] \<longrightarrow>
      (\<exists>t. join_comma (stringify_elements xs) = t \<and> t \<noteq> [] \<and> value_start (hd t)
        \<and> fuel_elements xs \<le> Suc (length t)
        \<and> (\<forall>n acc r. fuel_elements xs \<le> n \<longrightarrow>
              parse_elements n acc (t @ CHR '']'' # r) = Some (JArr (acc @ xs), r)))"
    and "json_members ps \<Longrightarrow> ps \<noteq> [] \<longrightarrow>
      (\<exists>t. join_comma (stringify_members ps) = t \<and> t \<noteq> [] \<and> hd t = dquote
        \<and> fuel_members ps \<le> Suc (length t)
        \<and> (\<forall>n acc r. fuel_members ps \<le> n \<longrightarrow> distinct (map fst acc @ map fst ps) \<longrightarrow>
              parse_members n acc (t @ CHR ''}'' # r) = Some (JObj (acc @ ps), r)))"
proof (induction v and xs and ps rule: json_value_json_values_json_members.induct)
  case 1
  then show ?case by simp
next
  case 2
  have "parse_value n (''null'' @ r) = Some (JNull, r)" if "Suc 0 \<le> n" for n r
    using that parse_value_null [of "n - 1" r] by (cases n) simp_all
  then show ?case
    by (simp add: value_start_def)
next
  case (3 b)
  have "parse_value n ((if b then ''true'' else ''false'') @ r) = Some (JBool b, r)"
    if "Suc 0 \<le> n" for n r
    using that parse_value_bool [of "n - 1" b r] by (cases n) simp_all
  then show ?case
    by (cases b) (simp_all add: value_start_def)
next
  case (4 i)
  have "parse_value n (show_int i @ r) = Some (JNum i, r)" if "Suc 0 \<le> n" "ok_rest r" for n r
    using that parse_value_number [of r "n - 1" i] by (cases n) simp_all
  with show_int_start [of i] show ?case
    by (cases "show_int i") simp_all
next
  case (5 s)
  have "parse_value n (quote s @ r) = Some (JStr s, r)" if "Suc 0 \<le> n" for n r
    using that parse_value_string [of "n - 1" s r] by (cases n) simp_all
  then show ?case
    by (simp add: value_start_def) (simp add: quote_def)
next
  case (6 xs)
  show ?case
  proof (cases "xs = []")
    case True
    have "parse_value n (''[]'' @ r) = Some (JArr [], r)" if "Suc 0 \<le> n" for n r
      using that parse_value_empty_array [of "n - 1" r] by (cases n) simp_all
    with True show ?thesis
      by (simp add: value_start_def)
  next
    case False
    with 6 obtain t where t: "join_comma (stringify_elements xs) = t" "t \<noteq> []"
      "value_start (hd t)" "fuel_elements xs \<le> Suc (length t)"
      and reads: "\<And>n acc r. fuel_elements xs \<le> n \<Longrightarrow>
        parse_elements n acc (t @ CHR '']'' # r) = Some (JArr (acc @ xs), r)"
      by auto
    have "parse_value n (''['' @ t @ '']'' @ r) = Some (JArr xs, r)"
      if "Suc (fuel_elements xs) \<le> n" for n r
    proof -
      from that obtain m where n: "n = Suc m" and m: "fuel_elements xs \<le> m"
        by (cases n) auto
      from reads [OF m, of "[]" r] show ?thesis
        unfolding n by (intro parse_value_array [OF t(2,3)]) simp
    qed
    with t show ?thesis
      by (simp add: value_start_def)
  qed
next
  case (7 ps)
  show ?case
  proof (cases "ps = []")
    case True
    have "parse_value n (''{}'' @ r) = Some (JObj [], r)" if "Suc 0 \<le> n" for n r
      using that parse_value_empty_object [of "n - 1" r] by (cases n) simp_all
    with True show ?thesis
      by (simp add: value_start_def)
  next
    case False
    with 7 obtain t where t: "join_comma (stringify_members ps) = t" "t \<noteq> []"
      "hd t = dquote" "fuel_members ps \<le> Suc (length t)"
      and reads: "\<And>n acc r. fuel_members ps \<le> n \<Longrightarrow> distinct (map fst acc @ map fst ps) \<Longrightarrow>
        parse_members n acc (t @ CHR ''}'' # r) = Some (JObj (acc @ ps), r)"
      by auto
    from 7(2) have keys: "distinct (map fst ps)"
      by simp
    have "parse_value n (''{'' @ t @ ''}'' @ r) = Some (JObj ps, r)"
      if "Suc (fuel_members ps) \<le> n" for n r
    proof -
      from that obtain m where n: "n = Suc m" and m: "fuel_members ps \<le> m"
        by (cases n) auto
      from reads [OF m, of "[]" r] keys show ?thesis
        unfolding n by (intro parse_value_object [OF t(2,3)]) simp
    qed
    with t show ?thesis
      by (simp add: value_start_def)
  qed
next
  case 8
  then show ?case by simp
next
  case 9
  then show ?case by simp
next
  case (10 x xs)
  from 10(3) have x: "json_value x" and xs: "json_values xs"
    by simp_all
  from 10(1) [OF x] obtain tx where tx: "stringify_value x = Some tx" "tx \<noteq> []"
    "value_start (hd tx)" "fuel_value x \<le> length tx"
    and read_x: "\<And>n r. fuel_value x \<le> n \<Longrightarrow> ok_rest r \<Longrightarrow> parse_value n (tx @ r) = Some (x, r)"
    by auto
  show ?case
  proof (cases "xs = []")
    case True
    have "parse_elements n acc (tx @ CHR '']'' # r) = Some (JArr (acc @ [x]), r)"
      if "Suc (fuel_value x) \<le> n" for n acc r
    proof -
      from that obtain m where n: "n = Suc m" and m: "fuel_value x \<le> m"
        by (cases n) auto
      have "parse_value m (tx @ CHR '']'' # r) = Some (x, CHR '']'' # r)"
        by (rule read_x [OF m]) (simp add: ok_rest_def)
      from parse_elements_step [OF this, of acc] show ?thesis
        by (simp add: n)
    qed
    with True tx show ?thesis
      by simp
  next
    case False
    with 10(2) [OF xs] obtain t where t: "join_comma (stringify_elements xs) = t" "t \<noteq> []"
      "value_start (hd t)" "fuel_elements xs \<le> Suc (length t)"
      and reads: "\<And>n acc r. fuel_elements xs \<le> n \<Longrightarrow>
        parse_elements n acc (t @ CHR '']'' # r) = Some (JArr (acc @ xs), r)"
      by auto
    have joined: "join_comma (stringify_elements (x # xs)) = tx @ CHR '','' # t"
      using False tx(1) t(1) by (simp add: join_comma_more stringify_elements_empty)
    have "parse_elements n acc ((tx @ CHR '','' # t) @ CHR '']'' # r)
        = Some (JArr (acc @ x # xs), r)"
      if "Suc (max (fuel_value x) (fuel_elements xs)) \<le> n" for n acc r
    proof -
      from that obtain m where n: "n = Suc m" and m: "fuel_value x \<le> m" "fuel_elements xs \<le> m"
        by (cases n) auto
      have "parse_value m (tx @ CHR '','' # t @ CHR '']'' # r)
          = Some (x, CHR '','' # t @ CHR '']'' # r)"
        by (rule read_x [OF m(1)]) (simp add: ok_rest_def)
      from parse_elements_step [OF this, of acc] reads [OF m(2), of "acc @ [x]" r]
      show ?thesis
        by (simp add: n skip_ws_value [OF t(2,3)])
    qed
    with joined tx t show ?thesis
      by (cases tx) simp_all
  qed
next
  case 11
  then show ?case by simp
next
  case (12 k x ps)
  from 12(3) have x: "json_value x" and ps: "json_members ps"
    by simp_all
  from 12(1) [OF x] obtain tx where tx: "stringify_value x = Some tx" "tx \<noteq> []"
    "value_start (hd tx)" "fuel_value x \<le> length tx"
    and read_x: "\<And>n r. fuel_value x \<le> n \<Longrightarrow> ok_rest r \<Longrightarrow> parse_value n (tx @ r) = Some (x, r)"
    by auto
  have member_start: "quote k @ '':'' @ tx \<noteq> []" "hd (quote k @ '':'' @ tx) = dquote"
    by (simp_all add: quote_def)
  show ?case
  proof (cases "ps = []")
    case True
    have "parse_members n acc ((quote k @ '':'' @ tx) @ CHR ''}'' # r)
        = Some (JObj (acc @ [(k, x)]), r)"
      if "Suc (fuel_value x) \<le> n" and "distinct (map fst acc @ [k])" for n acc r
    proof -
      from that obtain m where n: "n = Suc m" and m: "fuel_value x \<le> m"
        by (cases n) auto
      have "parse_value m (tx @ CHR ''}'' # r) = Some (x, CHR ''}'' # r)"
        by (rule read_x [OF m]) (simp add: ok_rest_def)
      from parse_members_step [OF this _ tx(2,3), of acc k] that(2) show ?thesis
        by (simp add: n update_fresh)
    qed
    with True tx member_start show ?thesis
      by (simp add: quote_def)
  next
    case False
    with 12(2) [OF ps] obtain t where t: "join_comma (stringify_members ps) = t" "t \<noteq> []"
      "hd t = dquote" "fuel_members ps \<le> Suc (length t)"
      and reads: "\<And>n acc r. fuel_members ps \<le> n \<Longrightarrow> distinct (map fst acc @ map fst ps) \<Longrightarrow>
        parse_members n acc (t @ CHR ''}'' # r) = Some (JObj (acc @ ps), r)"
      by auto
    have more: "stringify_members ps \<noteq> []"
      using t(1,2) by auto
    have joined: "join_comma (stringify_members ((k, x) # ps))
        = (quote k @ '':'' @ tx) @ CHR '','' # t"
      using tx(1) t(1) more by (simp add: join_comma_more)
    have quoted: "skip_ws (t @ r) = t @ r" for r
      using t(2,3) by (cases t) (simp_all add: is_ws_def dquote_def)
    have "parse_members n acc (((quote k @ '':'' @ tx) @ CHR '','' # t) @ CHR ''}'' # r)
        = Some (JObj (acc @ (k, x) # ps), r)"
      if "Suc (max (fuel_value x) (fuel_members ps)) \<le> n"
        and "distinct (map fst acc @ k # map fst ps)" for n acc r
    proof -
      from that obtain m where n: "n = Suc m" and m: "fuel_value x \<le> m" "fuel_members ps \<le> m"
        by (cases n) auto
      have "parse_value m (tx @ CHR '','' # t @ CHR ''}'' # r)
          = Some (x, CHR '','' # t @ CHR ''}'' # r)"
        by (rule read_x [OF m(1)]) (simp add: ok_rest_def)
      from parse_members_step [OF this _ tx(2,3), of acc k]
        reads [OF m(2), of "acc @ [(k, x)]" r] that(2)
      show ?thesis
        by (simp add: n update_fresh quoted)
    qed
    with joined tx t show ?thesis
      by (simp add: quote_def)
  qed
qed

text \<open>
  The reference runtime reads back every value that \<^verbatim>\<open>JSON.parse\<close> can return from the
  text it writes for it.
\<close>

theorem js_reads_back:
  assumes "json_value v"
  shows "\<exists>blob. js_stringify v = Inr blob \<and> js_parse blob = Inr v"
proof -
  from parse_after_stringify(1) [OF assms]
  obtain t where t: "stringify_value v = Some t" "t \<noteq> []" "value_start (hd t)"
    "fuel_value v \<le> length t"
    and reads: "\<And>n r. fuel_value v \<le> n \<Longrightarrow> ok_rest r \<Longrightarrow> parse_value n (t @ r) = Some (v, r)"
    by auto
  have "parse_value (length t) (skip_ws t) = Some (v, [])"
    using reads [OF t(4), of "[]"] skip_ws_value [OF t(2,3), of "[]"]
    by (simp add: ok_rest_def)
  with t(1) show ?thesis
    by (simp add: js_stringify_def js_parse_def)
qed

subsection \<open>What the parser returns\<close>

lemma json_values_snoc: "json_values (xs @ [x]) = (json_values xs \<and> json_value x)"
  by (induction xs) auto

lemma json_members_update:
  "json_members ps \<Longrightarrow> json_value x \<Longrightarrow> json_members (AList.update k x ps)"
  by (induction ps) auto

lemma parse_number_json: "parse_number s = Some (v, r) \<Longrightarrow> json_value v"
  by (auto simp add: parse_number_def split: list.splits if_splits)

lemma parse_returns_json:
  shows "parse_value n s = Some (v, r) \<Longrightarrow> json_value v"
    and "parse_elements n xs s = Some (v, r) \<Longrightarrow> json_values xs \<Longrightarrow> json_value v"
    and "parse_members n ps s = Some (v, r) \<Longrightarrow> json_members ps \<Longrightarrow> distinct (map fst ps)
      \<Longrightarrow> json_value v"
proof (induction n s and n xs s and n ps s arbitrary: v r and v r and v r
    rule: parse_value_parse_elements_parse_members.induct)
  case (1 s)
  then show ?case by simp
next
  case (2 n s)
  from 2(3) show ?case
    by (auto simp add: strip_prefix_def split: list.splits if_splits
        dest: 2(1,2) parse_number_json)
next
  case (3 xs s)
  then show ?case by simp
next
  case (4 n xs s)
  from 4(3) obtain a b where first: "parse_value n s = Some (a, b)"
    by (auto split: option.splits)
  have a: "json_value a"
    by (rule 4(1) [OF first])
  from 4(3) first obtain d ds where next_char: "skip_ws b = d # ds"
    by (auto split: list.splits)
  show ?case
  proof (cases "d = CHR '',''")
    case True
    with 4(3) first next_char
    have "parse_elements n (xs @ [a]) (skip_ws ds) = Some (v, r)"
      by simp
    from 4(2) [OF first refl next_char True this] 4(4) a show ?thesis
      by (simp add: json_values_snoc)
  next
    case False
    with 4(3) first next_char have "v = JArr (xs @ [a])"
      by (simp split: if_splits)
    with 4(4) a show ?thesis
      by (simp add: json_values_snoc)
  qed
next
  case (5 ps s)
  then show ?case by simp
next
  case (6 n ps s)
  from 6(3) obtain q cs where s: "s = q # cs" and q: "q = dquote"
    by (auto split: list.splits if_splits)
  from 6(3) s q obtain k rk where key: "parse_chars [] cs = Some (k, rk)"
    by (auto split: option.splits)
  from 6(3) s q key obtain d ds where colon: "skip_ws rk = d # ds" and d: "d = CHR '':''"
    by (auto split: list.splits if_splits)
  from 6(3) s q key colon d obtain x rx where val: "parse_value n (skip_ws ds) = Some (x, rx)"
    by (auto split: option.splits)
  have q': "\<not> q \<noteq> dquote" and d': "\<not> d \<noteq> CHR '':''"
    using q d by simp_all
  have x: "json_value x"
    by (rule 6(1) [OF s q' key refl colon d' val])
  from 6(3) s q key colon d val obtain e es where next_char: "skip_ws rx = e # es"
    by (auto split: list.splits)
  have members: "json_members (AList.update k x ps)" "distinct (map fst (AList.update k x ps))"
    using 6(4,5) x by (simp_all add: json_members_update distinct_update)
  show ?case
  proof (cases "e = CHR '',''")
    case True
    with 6(3) s q key colon d val next_char
    have "parse_members n (AList.update k x ps) (skip_ws es) = Some (v, r)"
      by simp
    from 6(2) [OF s q' key refl colon d' val refl next_char True this members] show ?thesis .
  next
    case False
    with 6(3) s q key colon d val next_char have "v = JObj (AList.update k x ps)"
      by (simp split: if_splits)
    with members show ?thesis
      by simp
  qed
qed

lemma js_parse_json: "js_parse s = Inr v \<Longrightarrow> json_value v"
  by (auto simp add: js_parse_def split: option.splits if_splits dest: parse_returns_json(1))

text \<open>
  With the reference runtime every snapshot is such a value, so the mapping with one
  entry replaced by a string is read back from the text written for it.
\<close>

lemma map_of_update_other: "k' \<noteq> k \<Longrightarrow> map_of (AList.update k x ps) k' = map_of ps k'"
  by (simp add: update_conv')

lemma read_snapshot_js_json:
  assumes "fst (read_snapshot js c w) = Fulfilled v"
  shows "json_value v"
proof -
  have parsed: "json_value (fst (parseState js r w'))" for r and w' :: "'a world"
    by (auto simp add: parseState_def js_def split: sum.splits dest: js_parse_json)
  from assms show ?thesis
    using parsed
    by (auto simp add: read_snapshot_def getState_def settle_def Let_def case_prod_beta
        split: getres.splits promise.splits if_splits)
qed

theorem js_keeps_entry:
  assumes "fst (read_snapshot js c w) = Fulfilled (JObj ps)"
  shows "\<exists>blob. JSON_stringify js (JObj (AList.update k (JStr s) ps)) = Inr blob
    \<and> JSON_parse js blob = Inr (JObj (AList.update k (JStr s) ps))
    \<and> map_of (AList.update k (JStr s) ps) k = Some (JStr s)"
proof -
  from read_snapshot_js_json [OF assms] have "json_members ps" "distinct (map fst ps)"
    by simp_all
  then have "json_value (JObj (AList.update k (JStr s) ps))"
    by (simp add: json_members_update distinct_update)
  from js_reads_back [OF this] show ?thesis
    by (simp add: js_def update_conv')
qed

section \<open>The degraded mode\<close>

text \<open>
  Claim C3, as stated, fails: the degraded mode is not entered where ambient storage is
  missing. With \<^verbatim>\<open>window\<close> defined, \<^verbatim>\<open>localStorage\<close> not bound and no backend
  configured, no platform storage is available, and yet the factory returns no effect
  at all: its body throws a \<^verbatim>\<open>ReferenceError\<close>.
\<close>

theorem missing_storage_is_not_degraded_mode:
  "recoilPersist \<lparr>window_defined = True, localStorage = None\<rparr> None None
      (new_world empty_store)
    = (Inl ReferenceError, new_world empty_store)"
  by (simp add: recoilPersist_def empty_config_def)

text \<open>
  Claim C3, amended. The factory returns the no-op effect \<^verbatim>\<open>() => { }\<close> exactly when the
  global \<^verbatim>\<open>window\<close> is undefined, and then it changes nothing. Attaching that effect to
  any cell, with any trigger, throws nothing and leaves the world as it was: no storage
  read, no storage write, no call of \<^verbatim>\<open>setSelf\<close>.
\<close>

theorem degraded_mode_is_silent:
  "(fst (recoilPersist e config settings w) = Inr NoopEffect) = (\<not> window_defined e)
   \<and> (\<not> window_defined e \<longrightarrow> recoilPersist e config settings w = (Inr NoopEffect, w))
   \<and> attach rt NoopEffect a w' = (None, w')"
  by (simp add: recoilPersist_def attach_def Let_def case_prod_beta split: option.splits)

theorem degraded_mode_is_silent_witness:
  "recoilPersist node_env None None (new_world empty_store) = (Inr NoopEffect, new_world empty_store)
   \<and> attach js NoopEffect count_cell (new_world empty_store) = (None, new_world empty_store)"
  using degraded_mode_is_silent [of node_env None None "new_world empty_store" js
      count_cell "new_world empty_store"]
  by (simp add: node_env_def)

text \<open>
  Claim C4, as stated, fails: without a \<^verbatim>\<open>window\<close> the factory returns the no-op effect
  although the configuration supplies a backend, and attaching it reads nothing from
  that backend, which holds a snapshot for the cell.
\<close>

theorem supplied_storage_ignored_without_window:
  \<open>recoilPersist node_env
      (Some \<lparr>key = KeyString ''demo'', storage = Some (mem_storage Immediate)\<rparr>) None
      (new_world (empty_store(KString ''demo'' := Some ''{"count":5}'')))
    = (Inr NoopEffect, new_world (empty_store(KString ''demo'' := Some ''{"count":5}'')))
   \<and> trace (snd (attach js NoopEffect count_cell
        (new_world (empty_store(KString ''demo'' := Some ''{"count":5}''))))) = []\<close>
  by (simp add: recoilPersist_def node_env_def attach_def new_world_def)

text \<open>
  Claim C4, amended. The factory returns the no-op effect exactly when \<^verbatim>\<open>window\<close> is
  undefined, whatever the configuration says about storage. When \<^verbatim>\<open>window\<close> is defined
  and the configuration supplies a backend, the factory returns an effect that holds
  that backend, whatever \<^verbatim>\<open>localStorage\<close> is, and the snapshot reader and writer of that
  effect call the \<^verbatim>\<open>getItem\<close> and \<^verbatim>\<open>setItem\<close> of that backend.
\<close>

theorem supplied_storage_used_iff_window:
  assumes "storage cfg = Some st"
  shows "(fst (recoilPersist e config settings w) = Inr NoopEffect) = (\<not> window_defined e)
    \<and> (if window_defined e then
         (\<exists>c w1. recoilPersist e (Some cfg) settings w = (Inr (PersistAtom c), w1)
            \<and> c_storage c = st
            \<and> backend (snd (getState rt c w')) = snd (getItem st (c_key c) (backend w'))
            \<and> (case JSON_stringify rt state of
                  Inl x \<Rightarrow> backend (setState rt c state w') = backend w'
                | Inr text \<Rightarrow>
                    backend (setState rt c state w') = snd (setItem st (c_key c) text (backend w'))))
       else recoilPersist e (Some cfg) settings w = (Inr NoopEffect, w))"
proof -
  have mode: "(fst (recoilPersist e config settings w) = Inr NoopEffect) = (\<not> window_defined e)"
    by (simp add: recoilPersist_def Let_def case_prod_beta split: option.splits)
  have reads: "backend (snd (getState rt c w')) = snd (getItem (c_storage c) (c_key c) (backend w'))"
    for c :: "'a closure"
    by (simp add: getState_def parseState_def Let_def case_prod_beta
        split: getres.splits sum.splits)
  have writes: "(case JSON_stringify rt state of
        Inl x \<Rightarrow> backend (setState rt c state w') = backend w'
      | Inr text \<Rightarrow>
          backend (setState rt c state w')
            = snd (setItem (c_storage c) (c_key c) text (backend w')))"
    for c :: "'a closure"
    by (simp add: setState_def Let_def case_prod_beta
        split: sum.splits setres.splits promise.splits)
  show ?thesis
  proof (cases "window_defined e")
    case False
    with mode show ?thesis by (simp add: recoilPersist_def)
  next
    case True
    obtain k w1 where k: "getKey cfg w = (k, w1)"
      by (cases "getKey cfg w")
    define c where "c = \<lparr>c_storage = st,
      c_serialize = serialize (case settings of None \<Rightarrow> empty_setting | Some s \<Rightarrow> s),
      c_deserialize = deserialize (case settings of None \<Rightarrow> empty_setting | Some s \<Rightarrow> s),
      c_key = k\<rparr>"
    have made: "recoilPersist e (Some cfg) settings w = (Inr (PersistAtom c), w1)"
      using True assms k by (simp add: recoilPersist_def c_def Let_def)
    have st: "c_storage c = st"
      by (simp add: c_def)
    from reads [of c] writes [of c] made st mode True show ?thesis
      by auto
  qed
qed

theorem supplied_storage_used_iff_window_witness:
  "\<exists>c w1. recoilPersist browser_env
        (Some \<lparr>key = KeyString ''demo'', storage = Some (mem_storage Deferred)\<rparr>) None
        (new_world empty_store) = (Inr (PersistAtom c), w1)
     \<and> c_storage c = mem_storage Deferred"
  using supplied_storage_used_iff_window
    [of "\<lparr>key = KeyString ''demo'', storage = Some (mem_storage Deferred)\<rparr>"
      "mem_storage Deferred" browser_env None None "new_world empty_store" js
      "new_world empty_store" JNull]
  by (auto simp add: browser_env_def)

section \<open>The storage key\<close>

text \<open>
  Claim C8, as stated, fails, in two ways. Without a \<^verbatim>\<open>window\<close> the factory returns
  before it resolves the key, so the key function is never called. And the key is
  resolved in the body that \<^verbatim>\<open>recoilPersist(config)\<close> returns, not in
  \<^verbatim>\<open>recoilPersist(config)\<close> itself: applying one configured factory to settings twice calls
  the key function twice, and the two effects hold the keys \<^verbatim>\<open>k-0\<close> and \<^verbatim>\<open>k-1\<close>.
\<close>

theorem key_function_called_per_application:
  "key_calls (snd (recoilPersist node_env
      (Some \<lparr>key = KeyFunction counter_key, storage = None\<rparr>) None (new_world empty_store))) = 0
   \<and> recoilPersist browser_env
        (Some \<lparr>key = KeyFunction counter_key, storage = None\<rparr>) None (new_world empty_store)
      = (Inr (PersistAtom \<lparr>c_storage = mem_storage Immediate, c_serialize = None,
                            c_deserialize = None, c_key = KString ''k-0''\<rparr>),
         \<lparr>backend = empty_store, key_calls = 1, trace = []\<rparr>)
   \<and> recoilPersist browser_env
        (Some \<lparr>key = KeyFunction counter_key, storage = None\<rparr>) None
        \<lparr>backend = empty_store, key_calls = 1, trace = []\<rparr>
      = (Inr (PersistAtom \<lparr>c_storage = mem_storage Immediate, c_serialize = None,
                            c_deserialize = None, c_key = KString ''k-1''\<rparr>),
         \<lparr>backend = empty_store, key_calls = 2, trace = []\<rparr>)"
  by (simp add: recoilPersist_def node_env_def browser_env_def new_world_def getKey_def
      empty_setting_def counter_key_def show_nat.simps digit_char_def Let_def
      char_of_eq_iff take_bit_eq_mod)

text \<open>
  Claim C8, amended. With a key function configured, the function is called by the
  application of the configured factory to settings, \<^verbatim>\<open>recoilPersist(config)(settings)\<close>:
  exactly once by an application that returns a persisting effect, which is one made
  where \<^verbatim>\<open>window\<close> is defined and a backend is configured or \<^verbatim>\<open>localStorage\<close> is bound, and
  not at all by any other application (one that returns the no-op effect, or throws).
  The effect returned holds the string that call returned; attaching the effect to a
  cell and running the \<^verbatim>\<open>onSet\<close> handler never call the function, and every storage call
  they make passes that one string.
\<close>

theorem key_function_called_once_per_effect:
  assumes "key cfg = KeyFunction f"
  shows "(\<exists>c w1. recoilPersist e (Some cfg) settings w = (Inr (PersistAtom c), w1))
      = (window_defined e \<and> (storage cfg \<noteq> None \<or> localStorage e \<noteq> None))
    \<and> key_calls (snd (recoilPersist e (Some cfg) settings w))
      = key_calls w
        + (if window_defined e \<and> (storage cfg \<noteq> None \<or> localStorage e \<noteq> None) then 1 else 0)
    \<and> (\<forall>c w1. recoilPersist e (Some cfg) settings w = (Inr (PersistAtom c), w1) \<longrightarrow>
          c_key c = KString (f (key_calls w))
          \<and> key_calls (snd (attach rt (PersistAtom c) a w')) = key_calls w'
          \<and> key_calls (fire_onSet rt c k v w') = key_calls w'
          \<and> storage_keys (trace (snd (attach rt (PersistAtom c) a w')))
              = storage_keys (trace w')
                @ (if trigger a = TriggerGet then [KString (f (key_calls w))] else [])
          \<and> (storage_keys (trace (fire_onSet rt c k v w'))
                = storage_keys (trace w') @ [KString (f (key_calls w))]
             \<or> storage_keys (trace (fire_onSet rt c k v w'))
                = storage_keys (trace w')
                  @ [KString (f (key_calls w)), KString (f (key_calls w))]))"
proof -
  have made: "(\<exists>c w1. recoilPersist e (Some cfg) settings w = (Inr (PersistAtom c), w1))
      = (window_defined e \<and> (storage cfg \<noteq> None \<or> localStorage e \<noteq> None))"
    by (auto simp add: recoilPersist_def Let_def case_prod_beta split: option.splits)
  have calls: "key_calls (snd (recoilPersist e (Some cfg) settings w))
      = key_calls w
        + (if window_defined e \<and> (storage cfg \<noteq> None \<or> localStorage e \<noteq> None) then 1 else 0)"
    using assms
    by (auto simp add: recoilPersist_def getKey_def Let_def split: option.splits)
  have held: "c_key c = KString (f (key_calls w))
      \<and> key_calls (snd (attach rt (PersistAtom c) a w')) = key_calls w'
      \<and> key_calls (fire_onSet rt c k v w') = key_calls w'
      \<and> storage_keys (trace (snd (attach rt (PersistAtom c) a w')))
          = storage_keys (trace w')
            @ (if trigger a = TriggerGet then [KString (f (key_calls w))] else [])
      \<and> (storage_keys (trace (fire_onSet rt c k v w'))
            = storage_keys (trace w') @ [KString (f (key_calls w))]
         \<or> storage_keys (trace (fire_onSet rt c k v w'))
            = storage_keys (trace w')
              @ [KString (f (key_calls w)), KString (f (key_calls w))])"
    if "recoilPersist e (Some cfg) settings w = (Inr (PersistAtom c), w1)" for c w1
  proof -
    from that assms have ck: "c_key c = KString (f (key_calls w))"
      by (auto simp add: recoilPersist_def getKey_def Let_def split: option.splits if_splits)
    from keys_attach [of rt c a w'] keys_fire_onSet [of rt c k v w'] ck show ?thesis
      by simp
  qed
  from made calls held show ?thesis
    by blast
qed

theorem key_function_called_once_per_effect_witness:
  "key_calls (snd (recoilPersist browser_env
      (Some \<lparr>key = KeyFunction counter_key, storage = None\<rparr>) None (new_world empty_store))) = 1
   \<and> (storage_keys (trace (fire_onSet js
          \<lparr>c_storage = mem_storage Immediate, c_serialize = None, c_deserialize = None,
            c_key = KString (counter_key 0)\<rparr> ''count'' JNull (new_world empty_store)))
        = [KString (counter_key 0)]
      \<or> storage_keys (trace (fire_onSet js
          \<lparr>c_storage = mem_storage Immediate, c_serialize = None, c_deserialize = None,
            c_key = KString (counter_key 0)\<rparr> ''count'' JNull (new_world empty_store)))
        = [KString (counter_key 0), KString (counter_key 0)])"
proof -
  have made: "recoilPersist browser_env
      (Some \<lparr>key = KeyFunction counter_key, storage = None\<rparr>) None (new_world empty_store)
    = (Inr (PersistAtom \<lparr>c_storage = mem_storage Immediate, c_serialize = None,
                          c_deserialize = None, c_key = KString (counter_key 0)\<rparr>),
       \<lparr>backend = empty_store, key_calls = 1, trace = []\<rparr>)"
    by (simp add: recoilPersist_def browser_env_def getKey_def empty_setting_def new_world_def
        Let_def)
  from key_function_called_once_per_effect
    [where cfg = "\<lparr>key = KeyFunction counter_key, storage = None\<rparr>" and f = counter_key
      and e = browser_env and settings = None and w = "new_world empty_store" and rt = js
      and a = count_cell and w' = "new_world empty_store" and k = "''count''" and v = JNull]
    made
  show ?thesis
    by (simp add: browser_env_def new_world_def)
qed

text \<open>
  Claim C10. When the configuration leaves \<^verbatim>\<open>key\<close> out, \<^verbatim>\<open>getKey\<close> returns \<^verbatim>\<open>undefined\<close>:
  nothing is put in its place. The effect the factory returns holds that key, and
  every \<^verbatim>\<open>getItem\<close> and \<^verbatim>\<open>setItem\<close> call of an attachment or of the \<^verbatim>\<open>onSet\<close> handler passes
  it: an attachment with trigger \<^verbatim>\<open>get\<close> makes one such call, the handler one or two.
\<close>

theorem omitted_key_is_undefined:
  assumes "key_omitted config"
    and "recoilPersist e config settings w = (Inr (PersistAtom c), w1)"
  shows "getKey (case config of None \<Rightarrow> empty_config | Some cfg \<Rightarrow> cfg) w = (KUndefined, w)
    \<and> c_key c = KUndefined
    \<and> storage_keys (trace (snd (attach rt (PersistAtom c) a w')))
        = storage_keys (trace w') @ (if trigger a = TriggerGet then [KUndefined] else [])
    \<and> (storage_keys (trace (fire_onSet rt c k v w')) = storage_keys (trace w') @ [KUndefined]
       \<or> storage_keys (trace (fire_onSet rt c k v w'))
          = storage_keys (trace w') @ [KUndefined, KUndefined])"
proof -
  from assms(1) have resolved:
    "getKey (case config of None \<Rightarrow> empty_config | Some cfg \<Rightarrow> cfg) w = (KUndefined, w)"
    by (simp add: key_omitted_def getKey_def empty_config_def split: option.splits)
  with assms(2) have ck: "c_key c = KUndefined"
    by (auto simp add: recoilPersist_def Let_def split: option.splits if_splits)
  from keys_attach [of rt c a w'] keys_fire_onSet [of rt c k v w'] resolved ck show ?thesis
    by simp
qed

theorem omitted_key_is_undefined_witness:
  "storage_keys (trace (snd (attach js
      (PersistAtom \<lparr>c_storage = mem_storage Immediate, c_serialize = None,
                     c_deserialize = None, c_key = KUndefined\<rparr>)
      count_cell (new_world empty_store)))) = [KUndefined]"
  using omitted_key_is_undefined [of None browser_env None "new_world empty_store"
      "\<lparr>c_storage = mem_storage Immediate, c_serialize = None,
        c_deserialize = None, c_key = KUndefined\<rparr>"
      "new_world empty_store" js count_cell "new_world empty_store"]
  by (simp add: key_omitted_def recoilPersist_def browser_env_def empty_config_def
      empty_setting_def getKey_def count_cell_def new_world_def)

section \<open>The snapshot reader\<close>

lemma js_parse_5: "js_parse ''5'' = Inr (JNum 5)"
  by code_simp

lemma js_parse_null: "js_parse ''null'' = Inr JNull"
  by code_simp

lemma js_parse_count_5: \<open>js_parse ''{"count":5}'' = Inr (JObj [(''count'', JNum 5)])\<close>
  by code_simp

text \<open>
  Claim C2, as stated, fails: with the text \<^verbatim>\<open>5\<close> stored under the key, the snapshot
  reader returns the number 5, which is no mapping.
\<close>

theorem snapshot_reader_returns_primitive:
  "fst (getState js (demo_closure Immediate) (demo_world ''5'')) = Inr (Now (JNum 5))
   \<and> \<not> is_mapping (JNum 5)"
  by (simp add: getState_def demo_closure_def demo_world_def new_world_def mem_storage_def
      empty_store_def parseState_string js_def js_parse_5 is_mapping_def)

text \<open>
  Claim C2, amended. When \<^verbatim>\<open>getItem\<close> answers \<^verbatim>\<open>null\<close> or \<^verbatim>\<open>undefined\<close>, and when it answers a
  string that \<^verbatim>\<open>JSON.parse\<close> rejects, the snapshot reader returns the empty mapping and
  throws nothing. When it answers a string that \<^verbatim>\<open>JSON.parse\<close> accepts, the reader
  returns the parsed value as it is: a mapping exactly when the text encodes one. When
  it answers a promise, the reader returns the promise derived from it and throws
  nothing, and when that promise is fulfilled with a string the snapshot is the one
  the same string gives at once: the empty mapping for a string that \<^verbatim>\<open>JSON.parse\<close>
  rejects, the parsed value otherwise. A promise fulfilled with \<^verbatim>\<open>undefined\<close> gives the
  empty mapping, and so does an answer of \<^verbatim>\<open>getItem\<close> that is neither \<^verbatim>\<open>null\<close>,
  \<^verbatim>\<open>undefined\<close>, a string nor a promise.
\<close>

theorem snapshot_reader_result:
  assumes "getItem (c_storage c) (c_key c) (backend w) = (r, b)"
  shows "(r = GetNull \<or> r = GetUndefined \<longrightarrow> fst (getState rt c w) = Inr (Now (JObj [])))
    \<and> (\<forall>s x. r = GetString s \<and> JSON_parse rt s = Inl x
          \<longrightarrow> fst (getState rt c w) = Inr (Now (JObj [])))
    \<and> (\<forall>s v. r = GetString s \<and> JSON_parse rt s = Inr v
          \<longrightarrow> fst (getState rt c w) = Inr (Now v))
    \<and> (r = GetOther \<longrightarrow> fst (getState rt c w) = Inr (Now (JObj [])))
    \<and> (\<forall>p. r = GetPromise p \<longrightarrow> fst (getState rt c w) = Inr (Later p))
    \<and> (\<forall>s x. r = GetPromise (Fulfilled (RString s)) \<and> JSON_parse rt s = Inl x
          \<longrightarrow> fst (read_snapshot rt c w) = Fulfilled (JObj []))
    \<and> (\<forall>s v. r = GetPromise (Fulfilled (RString s)) \<and> JSON_parse rt s = Inr v
          \<longrightarrow> fst (read_snapshot rt c w) = Fulfilled v)
    \<and> (r = GetPromise (Fulfilled RUndefined)
          \<longrightarrow> fst (read_snapshot rt c w) = Fulfilled (JObj []))"
  using assms
  by (auto simp add: getState_def read_snapshot_def settle_def parseState_def to_text_def
      Let_def)

theorem snapshot_reader_result_witness:
  \<open>fst (getState js (demo_closure Immediate) (demo_world ''{"count":5}''))
     = Inr (Now (JObj [(''count'', JNum 5)]))
   \<and> fst (getState js (demo_closure Deferred) (demo_world ''{"count":5}''))
     = Inr (Later (Fulfilled (RString ''{"count":5}'')))
   \<and> fst (read_snapshot js (demo_closure Deferred) (demo_world ''{"count":5}''))
     = Fulfilled (JObj [(''count'', JNum 5)])\<close>
proof -
  have now: \<open>getItem (c_storage (demo_closure Immediate)) (c_key (demo_closure Immediate))
      (backend (demo_world ''{"count":5}''))
    = (GetString ''{"count":5}'', backend (demo_world ''{"count":5}''))\<close>
    by (simp add: demo_closure_def demo_world_def new_world_def mem_storage_def empty_store_def)
  have later: \<open>getItem (c_storage (demo_closure Deferred)) (c_key (demo_closure Deferred))
      (backend (demo_world ''{"count":5}''))
    = (GetPromise (Fulfilled (RString ''{"count":5}'')), backend (demo_world ''{"count":5}''))\<close>
    by (simp add: demo_closure_def demo_world_def new_world_def mem_storage_def empty_store_def)
  from snapshot_reader_result [OF now, of js] snapshot_reader_result [OF later, of js]
  show ?thesis
    by (simp add: js_def js_parse_count_5)
qed

section \<open>Storage failures\<close>

text \<open>
  Claim C5, as stated, fails: on a backend whose \<^verbatim>\<open>getItem\<close> returns a promise that
  rejects, attaching with trigger \<^verbatim>\<open>get\<close> ends in an unhandled rejection, and so does an
  external set.
\<close>

theorem rejected_read_is_not_handled:
  "unhandled (trace (snd (attach js (PersistAtom offline_closure) count_cell
      (new_world empty_store)))) = [Thrown (JStr ''offline'')]
   \<and> unhandled (trace (fire_onSet js offline_closure ''count'' (JNum 5)
      (new_world empty_store))) = [Thrown (JStr ''offline'')]"
  by (simp add: attach_def persistAtom_def then_callback_def fire_onSet_def onSet_handler_def
      read_snapshot_def getState_def settle_def offline_closure_def rejecting_storage_def
      count_cell_def new_world_def Let_def)

text \<open>
  Claim C5, amended. The failures the effect handles are the synchronous ones: text
  that \<^verbatim>\<open>JSON.parse\<close> rejects, and an exception of \<^verbatim>\<open>JSON.stringify\<close> or of \<^verbatim>\<open>setItem\<close>, are
  caught and logged. A promise of \<^verbatim>\<open>getItem\<close> that rejects is not handled: on the
  initialization path nothing is pushed into the cell, \<^verbatim>\<open>onSet\<close> is registered and the
  rejection is left unhandled; on the \<^verbatim>\<open>onSet\<close> path the handler's promise rejects
  before anything is written.
\<close>

theorem storage_failures:
  "(getItem (c_storage c) (c_key c) (backend w) = (GetPromise (Rejected x), b) \<longrightarrow>
      attach rt (PersistAtom c) \<lparr>node_key = k, trigger = TriggerGet\<rparr> w
        = (None, w\<lparr>backend := b,
                    trace := trace w @ [E_getItem (c_key c), E_onSet, E_unhandled x]\<rparr>)
      \<and> fire_onSet rt c k v w
        = w\<lparr>backend := b, trace := trace w @ [E_getItem (c_key c), E_unhandled x]\<rparr>)
   \<and> (JSON_stringify rt state = Inr blob
        \<and> setItem (c_storage c) (c_key c) blob (backend w) = (SetThrows y, b') \<longrightarrow>
      setState rt c state w
        = w\<lparr>backend := b', trace := trace w @ [E_setItem (c_key c) blob, E_console_error y]\<rparr>)
   \<and> (JSON_stringify rt state = Inl y \<longrightarrow>
      setState rt c state w = w\<lparr>trace := trace w @ [E_console_error y]\<rparr>)
   \<and> (JSON_parse rt s = Inl y \<longrightarrow>
      parseState rt (RString s) w = (JObj [], w\<lparr>trace := trace w @ [E_console_error y]\<rparr>))"
  by (simp add: attach_def persistAtom_def then_callback_def fire_onSet_def onSet_handler_def
      read_snapshot_def getState_def settle_def setState_def parseState_string emit_def Let_def)

theorem storage_failures_witness:
  \<open>trace (fire_onSet js offline_closure ''count'' (JNum 5) (new_world empty_store))
     = [E_getItem (KString ''demo''), E_unhandled (Thrown (JStr ''offline''))]
   \<and> trace (setState js full_closure (JObj [(''count'', JNum 5)]) (new_world empty_store))
     = [E_setItem (KString ''demo'') ''{"count":5}'', E_console_error (Thrown (JStr ''quota''))]
   \<and> parseState js (RString ''not-json'') (new_world empty_store)
     = (JObj [], (new_world empty_store)\<lparr>trace := [E_console_error SyntaxError]\<rparr>)\<close>
proof -
  have str: \<open>JSON_stringify js (JObj [(''count'', JNum 5)]) = Inr ''{"count":5}''\<close>
    unfolding js_def by simp code_simp
  have malformed: "JSON_parse js ''not-json'' = Inl SyntaxError"
    unfolding js_def by simp code_simp
  from storage_failures [where c = offline_closure and w = "new_world empty_store"
      and x = "Thrown (JStr ''offline'')" and b = empty_store and rt = js and k = "''count''"
      and v = "JNum 5"]
  have one: "trace (fire_onSet js offline_closure ''count'' (JNum 5) (new_world empty_store))
     = [E_getItem (KString ''demo''), E_unhandled (Thrown (JStr ''offline''))]"
    by (simp add: offline_closure_def rejecting_storage_def new_world_def)
  from storage_failures [where c = full_closure and w = "new_world empty_store" and rt = js
      and state = "JObj [(''count'', JNum 5)]" and blob = \<open>''{"count":5}''\<close>
      and y = "Thrown (JStr ''quota'')" and b' = empty_store] str
  have two: \<open>trace (setState js full_closure (JObj [(''count'', JNum 5)]) (new_world empty_store))
     = [E_setItem (KString ''demo'') ''{"count":5}'', E_console_error (Thrown (JStr ''quota''))]\<close>
    by (simp add: full_closure_def full_storage_def new_world_def)
  from storage_failures [where w = "new_world empty_store" and rt = js and s = "''not-json''"
      and y = SyntaxError] malformed
  have three: "parseState js (RString ''not-json'') (new_world empty_store)
     = (JObj [], (new_world empty_store)\<lparr>trace := [E_console_error SyntaxError]\<rparr>)"
    by (simp add: new_world_def)
  from one two three show ?thesis
    by simp
qed

section \<open>Immediate and pending reads\<close>

text \<open>
  Claim C7. Take one backend whose \<^verbatim>\<open>getItem\<close> returns a string at once and one whose
  \<^verbatim>\<open>getItem\<close> returns a promise fulfilled with the same string, under effects with the
  same serializer and deserializer. Then every snapshot read ends with the same
  snapshot, an attachment pushes the same values into the cell through \<^verbatim>\<open>setSelf\<close>, and
  an external set writes the same text.
\<close>

theorem immediate_and_pending_agree:
  assumes "getItem (c_storage c1) (c_key c1) (backend w1) = (GetString s, b1)"
    and "getItem (c_storage c2) (c_key c2) (backend w2) = (GetPromise (Fulfilled (RString s)), b2)"
    and "c_deserialize c1 = c_deserialize c2"
    and "c_serialize c1 = c_serialize c2"
  shows "\<exists>snap vs ts.
      fst (read_snapshot rt c1 w1) = Fulfilled snap
    \<and> fst (read_snapshot rt c2 w2) = Fulfilled snap
    \<and> setSelf_calls (trace (snd (attach rt (PersistAtom c1) a w1))) = setSelf_calls (trace w1) @ vs
    \<and> setSelf_calls (trace (snd (attach rt (PersistAtom c2) a w2))) = setSelf_calls (trace w2) @ vs
    \<and> written (trace (fire_onSet rt c1 k v w1)) = written (trace w1) @ ts
    \<and> written (trace (fire_onSet rt c2 k v w2)) = written (trace w2) @ ts"
proof -
  define snap where "snap = (case JSON_parse rt s of Inr x \<Rightarrow> x | Inl x \<Rightarrow> JObj [])"
  have read1: "fst (read_snapshot rt c1 w1) = Fulfilled snap"
    using read_snapshot_string [OF assms(1), of s rt]
    by (simp add: snap_def parseState_string split: sum.splits)
  have read2: "fst (read_snapshot rt c2 w2) = Fulfilled snap"
    using read_snapshot_string [OF assms(2), of s rt]
    by (simp add: snap_def parseState_string split: sum.splits)
  define vs where "vs = (if trigger a = TriggerGet then pushed c1 (node_key a) snap else [])"
  have push1: "setSelf_calls (trace (snd (attach rt (PersistAtom c1) a w1)))
      = setSelf_calls (trace w1) @ vs"
    using attach_get_string [OF assms(1), of s a rt] attach_other_trigger [of a rt c1 w1]
    by (simp add: vs_def snap_def)
  have push2: "setSelf_calls (trace (snd (attach rt (PersistAtom c2) a w2)))
      = setSelf_calls (trace w2) @ vs"
    using attach_get_string [OF assms(2), of s a rt] attach_other_trigger [of a rt c2 w2]
      pushed_cong [OF assms(3)]
    by (simp add: vs_def snap_def)
  define ts where "ts = (case update_entry rt c1 k v snap of
      Inl x \<Rightarrow> []
    | Inr state' \<Rightarrow> (case JSON_stringify rt state' of Inl x \<Rightarrow> [] | Inr blob \<Rightarrow> [blob]))"
  have write1: "written (trace (fire_onSet rt c1 k v w1)) = written (trace w1) @ ts"
    by (simp add: written_fire_onSet read1 ts_def)
  have write2: "written (trace (fire_onSet rt c2 k v w2)) = written (trace w2) @ ts"
    by (simp add: written_fire_onSet read2 ts_def update_entry_cong [OF assms(4)])
  from read1 read2 push1 push2 write1 write2 show ?thesis
    by blast
qed

theorem immediate_and_pending_agree_witness:
  \<open>\<exists>snap vs ts.
      fst (read_snapshot js (demo_closure Immediate) (demo_world ''{"count":5}'')) = Fulfilled snap
    \<and> fst (read_snapshot js (demo_closure Deferred) (demo_world ''{"count":5}'')) = Fulfilled snap
    \<and> setSelf_calls (trace (snd (attach js (PersistAtom (demo_closure Immediate)) count_cell
          (demo_world ''{"count":5}'')))) = vs
    \<and> setSelf_calls (trace (snd (attach js (PersistAtom (demo_closure Deferred)) count_cell
          (demo_world ''{"count":5}'')))) = vs
    \<and> written (trace (fire_onSet js (demo_closure Immediate) ''name'' (JStr ''a'')
          (demo_world ''{"count":5}''))) = ts
    \<and> written (trace (fire_onSet js (demo_closure Deferred) ''name'' (JStr ''a'')
          (demo_world ''{"count":5}''))) = ts\<close>
proof -
  have now: \<open>getItem (c_storage (demo_closure Immediate)) (c_key (demo_closure Immediate))
      (backend (demo_world ''{"count":5}''))
    = (GetString ''{"count":5}'', backend (demo_world ''{"count":5}''))\<close>
    by (simp add: demo_closure_def demo_world_def new_world_def mem_storage_def empty_store_def)
  have later: \<open>getItem (c_storage (demo_closure Deferred)) (c_key (demo_closure Deferred))
      (backend (demo_world ''{"count":5}''))
    = (GetPromise (Fulfilled (RString ''{"count":5}'')), backend (demo_world ''{"count":5}''))\<close>
    by (simp add: demo_closure_def demo_world_def new_world_def mem_storage_def empty_store_def)
  have same: "c_deserialize (demo_closure Immediate) = c_deserialize (demo_closure Deferred)"
    "c_serialize (demo_closure Immediate) = c_serialize (demo_closure Deferred)"
    by (simp_all add: demo_closure_def)
  from immediate_and_pending_agree [OF now later same, of js count_cell "''name''" "JStr ''a''"]
  show ?thesis
    by (simp add: demo_world_def new_world_def)
qed

section \<open>External sets\<close>

lemma js_parse_name_a: \<open>js_parse ''{"name":"a"}'' = Inr (JObj [(''name'', JStr ''a'')])\<close>
  by code_simp

lemma js_stringify_name_marker:
  \<open>js_stringify (JObj [(''name'', JStr ''a''), (''count'', JDefaultValue)])
    = Inr ''{"name":"a","count":{}}''\<close>
  by code_simp

lemma js_parse_not_json: "js_parse ''not-json'' = Inl SyntaxError"
  by code_simp

lemma js_stringify_count_5: \<open>js_stringify (JObj [(''count'', JNum 5)]) = Inr ''{"count":5}''\<close>
  by code_simp

text \<open>
  Claim C1, on the code. With \<^verbatim>\<open>{"name":"a"}\<close> stored, a reset of the cell \<^verbatim>\<open>count\<close>, which
  has no entry, passes the marker to the handler; the test of the handler fails on
  \<^verbatim>\<open>hasOwnProperty\<close>, the \<^verbatim>\<open>else\<close> branch stores the marker itself under \<^verbatim>\<open>count\<close>, and the
  blob written has a new entry.
\<close>

theorem reset_of_absent_key_writes_entry:
  \<open>backend (fire_onSet js (demo_closure Immediate) ''count'' JDefaultValue
      (demo_world ''{"name":"a"}'')) (KString ''demo'')
    = Some ''{"name":"a","count":{}}''\<close>
proof -
  have read: \<open>read_snapshot js (demo_closure Immediate) (demo_world ''{"name":"a"}'')
    = (Fulfilled (JObj [(''name'', JStr ''a'')]),
       emit (E_getItem (KString ''demo'')) (demo_world ''{"name":"a"}''))\<close>
    by (simp add: read_snapshot_def getState_def settle_def demo_closure_def demo_world_def
        new_world_def getItem_mem empty_store_def parseState_string js_def js_parse_name_a
        emit_def)
  have upd: "update_entry js (demo_closure Immediate) ''count'' JDefaultValue
      (JObj [(''name'', JStr ''a'')])
    = Inr (JObj [(''name'', JStr ''a''), (''count'', JDefaultValue)])"
    by (simp add: update_entry_reset_absent demo_closure_def assign_def)
  show ?thesis
    unfolding fire_onSet_fulfilled [OF read upd]
    by (simp add: setState_def js_def js_stringify_name_marker demo_closure_def setItem_mem
        Let_def)
qed

text \<open>
  Claim C6. On either reference backend, let the text stored under the key be one that
  \<^verbatim>\<open>JSON.parse\<close> rejects. Then the snapshot reader ends with the empty mapping and throws
  nothing, and an external set of any cell writes \<^verbatim>\<open>JSON.stringify\<close> of the mapping that
  the assignment of that cell makes of the empty one (it holds that cell alone, and
  for the name \<^verbatim>\<open>__proto__\<close> it is still empty): after it the backend holds that text in
  place of the malformed one, and no rejection was left unhandled.
\<close>

theorem malformed_content_is_overwritten:
  assumes "c_storage c = mem_storage m"
    and "backend w (c_key c) = Some s"
    and "JSON_parse rt s = Inl x"
    and "JSON_stringify rt
        (JObj (assign k (case c_serialize c of Some f \<Rightarrow> JStr (f v) | None \<Rightarrow> v) []))
      = Inr blob"
  shows "fst (read_snapshot rt c w) = Fulfilled (JObj [])
    \<and> (\<exists>st. fst (getState rt c w) = Inr st)
    \<and> backend (fire_onSet rt c k v w) = (backend w)(c_key c := Some blob)
    \<and> written (trace (fire_onSet rt c k v w)) = written (trace w) @ [blob]
    \<and> unhandled (trace (fire_onSet rt c k v w)) = unhandled (trace w)"
proof -
  have read: "fst (read_snapshot rt c w) = Fulfilled (JObj [])"
    and quiet: "\<exists>st. fst (getState rt c w) = Inr st"
    by (rule read_snapshot_malformed [OF assms(1-3)])+
  from fire_onSet_mem(1-3) [OF assms(1) read update_entry_empty assms(4)] read quiet
  show ?thesis
    by simp
qed

theorem malformed_content_is_overwritten_witness:
  \<open>fst (read_snapshot js (demo_closure Immediate) (demo_world ''not-json'')) = Fulfilled (JObj [])
   \<and> backend (fire_onSet js (demo_closure Immediate) ''count'' (JNum 5) (demo_world ''not-json''))
        (KString ''demo'') = Some ''{"count":5}''
   \<and> unhandled (trace (fire_onSet js (demo_closure Immediate) ''count'' (JNum 5)
        (demo_world ''not-json''))) = []\<close>
proof -
  have a: "c_storage (demo_closure Immediate) = mem_storage Immediate"
    by (simp add: demo_closure_def)
  have b: "backend (demo_world ''not-json'') (c_key (demo_closure Immediate)) = Some ''not-json''"
    by (simp add: demo_closure_def demo_world_def new_world_def)
  have c: "JSON_parse js ''not-json'' = Inl SyntaxError"
    by (simp add: js_def js_parse_not_json)
  have d: \<open>JSON_stringify js (JObj (assign ''count''
      (case c_serialize (demo_closure Immediate) of Some f \<Rightarrow> JStr (f (JNum 5)) | None \<Rightarrow> JNum 5)
      []))
    = Inr ''{"count":5}''\<close>
    by (simp add: js_def demo_closure_def js_stringify_count_5 assign_def)
  from malformed_content_is_overwritten [OF a b c d] show ?thesis
    by (simp add: demo_closure_def demo_world_def new_world_def)
qed

text \<open>
  Claim C9, as stated, fails: the handler assigns the cell's entry to whatever the
  snapshot reader returned. With the text \<^verbatim>\<open>5\<close> stored under the key the snapshot is the
  number 5; an external set of the cell \<^verbatim>\<open>count\<close> throws a \<^verbatim>\<open>TypeError\<close> on the
  assignment, the rejection is left unhandled, nothing is written, and attaching a
  fresh cell of that name pushes nothing into it. The same happens on an empty store
  whose \<^verbatim>\<open>getItem\<close> answers with a promise of \<^verbatim>\<open>null\<close>: there the snapshot is \<^verbatim>\<open>null\<close>.
\<close>

theorem set_on_primitive_snapshot_is_lost:
  "setSelf_calls (trace (snd (attach js (PersistAtom (serial_closure Immediate)) count_cell
      (fire_onSet js (serial_closure Immediate) ''count'' (JNum 5) (demo_world ''5''))))) = []
   \<and> unhandled (trace (fire_onSet js (serial_closure Immediate) ''count'' (JNum 5)
      (demo_world ''5''))) = [TypeError]
   \<and> backend (fire_onSet js (serial_closure Immediate) ''count'' (JNum 5) (demo_world ''5''))
      (KString ''demo'') = Some ''5''
   \<and> setSelf_calls (trace (snd (attach js (PersistAtom (serial_closure Deferred)) count_cell
      (fire_onSet js (serial_closure Deferred) ''count'' (JNum 5) (new_world empty_store))))) = []
   \<and> unhandled (trace (fire_onSet js (serial_closure Deferred) ''count'' (JNum 5)
      (new_world empty_store))) = [TypeError]
   \<and> backend (fire_onSet js (serial_closure Deferred) ''count'' (JNum 5)
      (new_world empty_store)) (KString ''demo'') = None"
  by (simp add: attach_def persistAtom_def then_callback_def push_if_present_def
      then_is_function_def hasOwnProperty_def fire_onSet_def onSet_handler_def update_entry_def
      instanceof_DefaultValue_def set_prop_def read_snapshot_def getState_def settle_def
      serial_closure_def demo_world_def new_world_def getItem_mem empty_store_def
      parseState_string parseState_def to_text_def js_def js_parse_5 js_parse_null
      count_cell_def emit_def Let_def)

text \<open>
  Claim C9, amended. Take an effect with serializer \<open>f\<close> and deserializer \<open>d\<close> on either
  reference backend, a world in which the snapshot read ends with a mapping, a cell
  \<open>k\<close> whose name is neither \<^verbatim>\<open>__proto__\<close> nor \<^verbatim>\<open>hasOwnProperty\<close>, and a value \<open>v\<close> that is
  not the reset marker. Let \<^verbatim>\<open>JSON.parse\<close> give back, for the text written, a mapping
  that holds under the cell's name the string \<^verbatim>\<open>JSON.stringify\<close> was given there and that
  has no entry named \<^verbatim>\<open>hasOwnProperty\<close>. Then, after an external set of \<open>v\<close> on the cell
  \<open>k\<close>, attaching a fresh cell of the same name with trigger \<^verbatim>\<open>get\<close>, through any effect
  on the same backend and key with deserializer \<open>d\<close>, throws nothing and pushes exactly
  \<open>d (f v)\<close> into the cell. The statement says nothing of a promise fulfilled with
  \<^verbatim>\<open>null\<close>, nor of the two names left out.
\<close>

theorem set_then_initialize_round_trip:
  assumes "c_storage c = mem_storage m"
    and "c_serialize c = Some f"
    and "c_storage c' = mem_storage m'" and "c_key c' = c_key c" and "c_deserialize c' = Some d"
    and "fst (read_snapshot rt c w) = Fulfilled (JObj ps)"
    and "v \<noteq> JDefaultValue"
    and "k \<noteq> ''__proto__''" and "k \<noteq> ''hasOwnProperty''"
    and "JSON_stringify rt (JObj (AList.update k (JStr (f v)) ps)) = Inr blob"
    and "JSON_parse rt blob = Inr (JObj ps')"
    and "map_of ps' k = Some (JStr (f v))"
    and "map_of ps' ''hasOwnProperty'' = None"
  shows "fst (attach rt (PersistAtom c') \<lparr>node_key = k, trigger = TriggerGet\<rparr>
            (fire_onSet rt c k v w)) = None
    \<and> setSelf_calls (trace (snd (attach rt (PersistAtom c') \<lparr>node_key = k, trigger = TriggerGet\<rparr>
            (fire_onSet rt c k v w))))
        = setSelf_calls (trace w) @ [d (JStr (f v))]"
proof -
  have upd: "update_entry rt c k v (JObj ps) = Inr (JObj (AList.update k (JStr (f v)) ps))"
    using update_entry_value [OF assms(7), of rt c k ps] assms(2,8) by (simp add: assign_plain)
  define w2 where "w2 = fire_onSet rt c k v w"
  have stored: "backend w2 (c_key c') = Some blob"
    using fire_onSet_mem(1) [OF assms(1,6) upd assms(10)] assms(4) by (simp add: w2_def)
  have calls: "setSelf_calls (trace w2) = setSelf_calls (trace w)"
    using fire_onSet_mem(4) [OF assms(1,6) upd assms(10)] by (simp add: w2_def)
  have pushes: "pushed c' k (JObj ps') = [d (JStr (f v))]"
    using assms(5,12,13) by (simp add: pushed_def hasOwnProperty_def get_prop_def)
  from attach_mem_mapping [OF assms(3) stored assms(11,13), of k] calls pushes show ?thesis
    by (simp add: w2_def)
qed

lemma js_stringify_5: "js_stringify (JNum 5) = Inr ''5''"
  by code_simp

lemma js_stringify_count_text:
  \<open>js_stringify (JObj [(''count'', JStr ''5'')]) = Inr ''{"count":"5"}''\<close>
  by code_simp

lemma js_parse_count_text:
  \<open>js_parse ''{"count":"5"}'' = Inr (JObj [(''count'', JStr ''5'')])\<close>
  by code_simp

theorem set_then_initialize_round_trip_witness:
  "fst (attach js (PersistAtom (serial_closure Deferred)) count_cell
      (fire_onSet js (serial_closure Immediate) ''count'' (JNum 5) (new_world empty_store))) = None
   \<and> setSelf_calls (trace (snd (attach js (PersistAtom (serial_closure Deferred)) count_cell
      (fire_onSet js (serial_closure Immediate) ''count'' (JNum 5) (new_world empty_store)))))
     = [JNum 5]"
proof -
  have ser: "json_serialize (JNum 5) = ''5''"
    by (simp add: json_serialize_def js_stringify_5)
  have des: "json_deserialize (JStr ''5'') = JNum 5"
    by (simp add: json_deserialize_def js_parse_5)
  have a: "c_storage (serial_closure Immediate) = mem_storage Immediate"
    "c_serialize (serial_closure Immediate) = Some json_serialize"
    "c_storage (serial_closure Deferred) = mem_storage Deferred"
    "c_key (serial_closure Deferred) = c_key (serial_closure Immediate)"
    "c_deserialize (serial_closure Deferred) = Some json_deserialize"
    by (simp_all add: serial_closure_def)
  have read: "fst (read_snapshot js (serial_closure Immediate) (new_world empty_store))
      = Fulfilled (JObj [])"
    by (simp add: read_snapshot_def getState_def settle_def serial_closure_def getItem_mem
        new_world_def empty_store_def Let_def)
  have val: "JNum 5 \<noteq> JDefaultValue"
    by simp
  have str: \<open>JSON_stringify js (JObj (AList.update ''count'' (JStr (json_serialize (JNum 5))) []))
      = Inr ''{"count":"5"}''\<close>
    by (simp add: js_def ser js_stringify_count_text)
  have parsed: \<open>JSON_parse js ''{"count":"5"}'' = Inr (JObj [(''count'', JStr ''5'')])\<close>
    by (simp add: js_def js_parse_count_text)
  have name: "''count'' \<noteq> ''__proto__''" "''count'' \<noteq> ''hasOwnProperty''"
    by simp_all
  have entry: "map_of [(''count'', JStr ''5'')] ''count'' = Some (JStr (json_serialize (JNum 5)))"
    "map_of [(''count'', JStr ''5'')] ''hasOwnProperty'' = None"
    by (simp_all add: ser)
  from set_then_initialize_round_trip [OF a read val name str parsed entry] show ?thesis
    by (simp add: ser des count_cell_def new_world_def)
qed

section \<open>On the reference runtime\<close>

text \<open>
  With the reference runtime the conditions on \<^verbatim>\<open>JSON\<close> are met by every snapshot that
  is read: the round trip of a set and an initialization holds whenever the snapshot
  is a mapping with no entry named \<^verbatim>\<open>hasOwnProperty\<close>, for every cell but the two whose
  names \<^verbatim>\<open>Object.prototype\<close> takes, and the text that replaces malformed content is read
  back as the mapping that was written.
\<close>

theorem reference_round_trip:
  assumes "c_storage c = mem_storage m"
    and "c_serialize c = Some f"
    and "c_storage c' = mem_storage m'" and "c_key c' = c_key c" and "c_deserialize c' = Some d"
    and "fst (read_snapshot js c w) = Fulfilled (JObj ps)"
    and "v \<noteq> JDefaultValue"
    and "k \<noteq> ''__proto__''" and "k \<noteq> ''hasOwnProperty''"
    and "map_of ps ''hasOwnProperty'' = None"
  shows "fst (attach js (PersistAtom c') \<lparr>node_key = k, trigger = TriggerGet\<rparr>
            (fire_onSet js c k v w)) = None
    \<and> setSelf_calls (trace (snd (attach js (PersistAtom c') \<lparr>node_key = k, trigger = TriggerGet\<rparr>
            (fire_onSet js c k v w))))
        = setSelf_calls (trace w) @ [d (JStr (f v))]"
proof -
  from js_keeps_entry [OF assms(6), of k "f v"]
  obtain blob where blob: "JSON_stringify js (JObj (AList.update k (JStr (f v)) ps)) = Inr blob"
    and parsed: "JSON_parse js blob = Inr (JObj (AList.update k (JStr (f v)) ps))"
    and entry: "map_of (AList.update k (JStr (f v)) ps) k = Some (JStr (f v))"
    by auto
  have plain: "map_of (AList.update k (JStr (f v)) ps) ''hasOwnProperty'' = None"
    using assms(9,10) by (simp add: map_of_update_other)
  have upd: "update_entry js c k v (JObj ps) = Inr (JObj (AList.update k (JStr (f v)) ps))"
    using update_entry_value [OF assms(7), of js c k ps] assms(2,8) by (simp add: assign_plain)
  define w2 where "w2 = fire_onSet js c k v w"
  have stored: "backend w2 (c_key c') = Some blob"
    using fire_onSet_mem(1) [OF assms(1,6) upd blob] assms(4) by (simp add: w2_def)
  have calls: "setSelf_calls (trace w2) = setSelf_calls (trace w)"
    using fire_onSet_mem(4) [OF assms(1,6) upd blob] by (simp add: w2_def)
  have pushes: "pushed c' k (JObj (AList.update k (JStr (f v)) ps)) = [d (JStr (f v))]"
    using assms(5) entry plain by (simp add: pushed_def hasOwnProperty_def get_prop_def)
  from attach_mem_mapping [OF assms(3) stored parsed plain, of k] calls pushes show ?thesis
    by (simp add: w2_def)
qed

theorem reference_overwrite:
  assumes "c_storage c = mem_storage m"
    and "backend w (c_key c) = Some s"
    and "js_parse s = Inl x"
    and "c_serialize c = Some f \<or> (c_serialize c = None \<and> json_value v)"
  shows "\<exists>blob. backend (fire_onSet js c k v w) (c_key c) = Some blob
    \<and> js_parse blob
        = Inr (JObj (assign k (case c_serialize c of Some f \<Rightarrow> JStr (f v) | None \<Rightarrow> v) []))"
proof -
  define entry where "entry = (case c_serialize c of Some f \<Rightarrow> JStr (f v) | None \<Rightarrow> v)"
  from assms(4) have "json_value (JObj (assign k entry []))"
    by (auto simp add: entry_def assign_def)
  from js_reads_back [OF this]
  obtain blob where blob: "JSON_stringify js (JObj (assign k entry [])) = Inr blob"
    and parsed: "js_parse blob = Inr (JObj (assign k entry []))"
    by (auto simp add: js_def)
  have malformed: "JSON_parse js s = Inl x"
    using assms(3) by (simp add: js_def)
  have read: "fst (read_snapshot js c w) = Fulfilled (JObj [])"
    by (rule read_snapshot_malformed(1) [OF assms(1,2) malformed])
  have "backend (fire_onSet js c k v w) = (backend w)(c_key c := Some blob)"
    by (rule fire_onSet_mem(1) [OF assms(1) read update_entry_empty blob [unfolded entry_def]])
  with parsed show ?thesis
    by (simp add: entry_def)
qed

section \<open>Further properties of the code\<close>

text \<open>
  A reset of a cell that has an entry. When the snapshot read ends with a mapping that
  holds the cell's name and has no entry named \<^verbatim>\<open>hasOwnProperty\<close>, and the handler is
  given the reset marker, the handler deletes that entry and hands the rest to the
  writer: the mapping written has no entry for the cell and keeps every other entry.
\<close>

theorem reset_deletes_present_entry:
  assumes "read_snapshot rt c w = (Fulfilled (JObj ps), w1)"
    and "map_of ps k \<noteq> None"
    and "map_of ps ''hasOwnProperty'' = None"
  shows "fire_onSet rt c k JDefaultValue w = setState rt c (JObj (AList.delete k ps)) w1
    \<and> map_of (AList.delete k ps) k = None
    \<and> (\<forall>k'. k' \<noteq> k \<longrightarrow> map_of (AList.delete k ps) k' = map_of ps k')"
  using fire_onSet_fulfilled [OF assms(1) update_entry_reset_present [OF assms(2,3)]]
  by (simp add: delete_conv')

lemma js_parse_count_name:
  \<open>js_parse ''{"count":5,"name":"a"}'' = Inr (JObj [(''count'', JNum 5), (''name'', JStr ''a'')])\<close>
  by code_simp

lemma js_stringify_count_name:
  \<open>js_stringify (JObj [(''count'', JNum 5), (''name'', JStr ''a'')])
    = Inr ''{"count":5,"name":"a"}''\<close>
  by code_simp

lemma js_stringify_name_a:
  \<open>js_stringify (JObj [(''name'', JStr ''a'')]) = Inr ''{"name":"a"}''\<close>
  by code_simp

theorem reset_deletes_present_entry_witness:
  \<open>backend (fire_onSet js (demo_closure Immediate) ''count'' JDefaultValue
      (demo_world ''{"count":5,"name":"a"}'')) (KString ''demo'')
    = Some ''{"name":"a"}''\<close>
proof -
  have read: \<open>read_snapshot js (demo_closure Immediate) (demo_world ''{"count":5,"name":"a"}'')
    = (Fulfilled (JObj [(''count'', JNum 5), (''name'', JStr ''a'')]),
       emit (E_getItem (KString ''demo'')) (demo_world ''{"count":5,"name":"a"}''))\<close>
    by (simp add: read_snapshot_def getState_def settle_def demo_closure_def demo_world_def
        new_world_def getItem_mem empty_store_def parseState_string js_def js_parse_count_name
        emit_def)
  have present: "map_of [(''count'', JNum 5), (''name'', JStr ''a'')] ''count'' \<noteq> None"
    "map_of [(''count'', JNum 5), (''name'', JStr ''a'')] ''hasOwnProperty'' = None"
    by simp_all
  from reset_deletes_present_entry [OF read present] show ?thesis
    by (simp add: setState_def js_def js_stringify_name_a demo_closure_def setItem_mem Let_def
        AList.delete_eq)
qed

text \<open>
  The scenario of the specification. With the key \<^verbatim>\<open>demo\<close> and an empty store: setting
  \<^verbatim>\<open>count\<close> to 5 leaves \<^verbatim>\<open>{"count":5}\<close>; then setting \<^verbatim>\<open>name\<close> to \<^verbatim>\<open>"a"\<close> leaves
  \<^verbatim>\<open>{"count":5,"name":"a"}\<close>; then resetting \<^verbatim>\<open>count\<close> leaves \<^verbatim>\<open>{"name":"a"}\<close>.
\<close>

theorem demo_scenario:
  \<open>backend (fire_onSet js (demo_closure Immediate) ''count'' (JNum 5) (new_world empty_store))
      (KString ''demo'') = Some ''{"count":5}''
   \<and> backend (fire_onSet js (demo_closure Immediate) ''name'' (JStr ''a'')
        (fire_onSet js (demo_closure Immediate) ''count'' (JNum 5) (new_world empty_store)))
      (KString ''demo'') = Some ''{"count":5,"name":"a"}''
   \<and> backend (fire_onSet js (demo_closure Immediate) ''count'' JDefaultValue
        (fire_onSet js (demo_closure Immediate) ''name'' (JStr ''a'')
          (fire_onSet js (demo_closure Immediate) ''count'' (JNum 5) (new_world empty_store))))
      (KString ''demo'') = Some ''{"name":"a"}''\<close>
  by (simp add: fire_onSet_def onSet_handler_def read_snapshot_def getState_def settle_def
      setState_def update_entry_def instanceof_DefaultValue_def hasOwnProperty_def
      set_prop_def assign_def delete_prop_def demo_closure_def new_world_def getItem_mem
      setItem_mem empty_store_def parseState_string js_def emit_def Let_def AList.delete_eq
      js_parse_count_5 js_parse_count_name js_stringify_count_5 js_stringify_count_name
      js_stringify_name_a)

text \<open>
  No default backend. Where \<^verbatim>\<open>window\<close> is defined, \<^verbatim>\<open>localStorage\<close> is not bound and the
  configuration supplies no backend, the factory's body throws a \<^verbatim>\<open>ReferenceError\<close>: it
  returns no effect and calls no key function.
\<close>

theorem unbound_localStorage_throws:
  assumes "window_defined e" and "localStorage e = None"
    and "config = None \<or> (\<exists>cfg. config = Some cfg \<and> storage cfg = None)"
  shows "recoilPersist e config settings w = (Inl ReferenceError, w)"
  using assms
  by (auto simp add: recoilPersist_def empty_config_def)

theorem unbound_localStorage_throws_witness:
  "recoilPersist \<lparr>window_defined = True, localStorage = None\<rparr>
      (Some \<lparr>key = KeyFunction counter_key, storage = None\<rparr>) None (new_world empty_store)
    = (Inl ReferenceError, new_world empty_store)"
  using unbound_localStorage_throws [of "\<lparr>window_defined = True, localStorage = None\<rparr>"
      "Some \<lparr>key = KeyFunction counter_key, storage = None\<rparr>" None "new_world empty_store"]
  by simp

text \<open>
  A promise fulfilled with \<^verbatim>\<open>null\<close>. \<^verbatim>\<open>parseState\<close> tests its argument for \<^verbatim>\<open>undefined\<close>
  only, so when a \<^verbatim>\<open>getItem\<close> promise is fulfilled with \<^verbatim>\<open>null\<close> and \<^verbatim>\<open>JSON.parse\<close> reads
  the text \<^verbatim>\<open>null\<close> as \<^verbatim>\<open>null\<close>, the snapshot is \<^verbatim>\<open>null\<close>, not the empty mapping: an
  external set rejects with a \<^verbatim>\<open>TypeError\<close> that nothing handles and writes nothing,
  and an attachment with trigger \<^verbatim>\<open>get\<close> leaves the same rejection.
\<close>

theorem promise_of_null_is_not_a_mapping:
  assumes "getItem (c_storage c) (c_key c) (backend w) = (GetPromise (Fulfilled RNull), b)"
    and "JSON_parse rt ''null'' = Inr JNull"
  shows "fst (read_snapshot rt c w) = Fulfilled JNull
    \<and> fire_onSet rt c k v w
        = w\<lparr>backend := b, trace := trace w @ [E_getItem (c_key c), E_unhandled TypeError]\<rparr>
    \<and> attach rt (PersistAtom c) \<lparr>node_key = k, trigger = TriggerGet\<rparr> w
        = (None, w\<lparr>backend := b,
                   trace := trace w @ [E_getItem (c_key c), E_onSet, E_unhandled TypeError]\<rparr>)"
  using assms
  by (simp add: read_snapshot_def getState_def settle_def parseState_def to_text_def
      fire_onSet_def onSet_handler_def update_entry_def instanceof_DefaultValue_def
      hasOwnProperty_def set_prop_def attach_def persistAtom_def then_callback_def
      push_if_present_def emit_def Let_def)

theorem promise_of_null_is_not_a_mapping_witness:
  "trace (fire_onSet js (demo_closure Deferred) ''count'' (JNum 5) (new_world empty_store))
    = [E_getItem (KString ''demo''), E_unhandled TypeError]
   \<and> backend (fire_onSet js (demo_closure Deferred) ''count'' (JNum 5) (new_world empty_store))
    = empty_store"
proof -
  have read: "getItem (c_storage (demo_closure Deferred)) (c_key (demo_closure Deferred))
      (backend (new_world empty_store)) = (GetPromise (Fulfilled RNull), empty_store)"
    by (simp add: demo_closure_def getItem_mem new_world_def empty_store_def)
  have null: "JSON_parse js ''null'' = Inr JNull"
    by (simp add: js_def js_parse_null)
  from promise_of_null_is_not_a_mapping [OF read null, of "''count''" "JNum 5"] show ?thesis
    by (simp add: new_world_def demo_closure_def)
qed


text \<open>
  The names that \<^verbatim>\<open>Object.prototype\<close> takes. An external set of a cell named
  \<^verbatim>\<open>hasOwnProperty\<close> stores an entry that hides the method: from then on every
  attachment on an immediate backend throws a \<^verbatim>\<open>TypeError\<close> and pushes nothing. An
  external set of a cell named \<^verbatim>\<open>__proto__\<close> on an empty store stores no entry.
\<close>

lemma js_stringify_shadow:
  \<open>js_stringify (JObj [(''hasOwnProperty'', JNum 5)]) = Inr ''{"hasOwnProperty":5}''\<close>
  by code_simp

lemma js_parse_shadow:
  \<open>js_parse ''{"hasOwnProperty":5}'' = Inr (JObj [(''hasOwnProperty'', JNum 5)])\<close>
  by code_simp

lemma js_stringify_empty: "js_stringify (JObj []) = Inr ''{}''"
  by code_simp

theorem cell_named_hasOwnProperty:
  \<open>backend (fire_onSet js (demo_closure Immediate) ''hasOwnProperty'' (JNum 5)
      (new_world empty_store)) (KString ''demo'') = Some ''{"hasOwnProperty":5}''
   \<and> fst (attach js (PersistAtom (demo_closure Immediate)) count_cell
        (fire_onSet js (demo_closure Immediate) ''hasOwnProperty'' (JNum 5)
          (new_world empty_store))) = Some TypeError
   \<and> setSelf_calls (trace (snd (attach js (PersistAtom (demo_closure Immediate))
        \<lparr>node_key = ''hasOwnProperty'', trigger = TriggerGet\<rparr>
        (fire_onSet js (demo_closure Immediate) ''hasOwnProperty'' (JNum 5)
          (new_world empty_store))))) = []\<close>
  by (simp add: attach_def persistAtom_def push_if_present_def then_is_function_def
      hasOwnProperty_def fire_onSet_def onSet_handler_def update_entry_def
      instanceof_DefaultValue_def set_prop_def assign_def read_snapshot_def getState_def
      settle_def setState_def demo_closure_def new_world_def getItem_mem setItem_mem
      empty_store_def parseState_string js_def js_stringify_shadow js_parse_shadow
      count_cell_def emit_def Let_def)

theorem cell_named_proto:
  "backend (fire_onSet js (demo_closure Immediate) ''__proto__'' (JNum 5)
      (new_world empty_store)) (KString ''demo'') = Some ''{}''"
  by (simp add: fire_onSet_def onSet_handler_def update_entry_def instanceof_DefaultValue_def
      set_prop_def assign_def read_snapshot_def getState_def settle_def setState_def
      demo_closure_def new_world_def getItem_mem setItem_mem empty_store_def js_def
      js_stringify_empty emit_def Let_def)

text \<open>
  A snapshot that is an array. A cell's name that is no index makes a property that
  \<^verbatim>\<open>JSON.stringify\<close> does not write, so an external set writes the array back as it was;
  a name that is an index beyond the end lengthens the array, and the holes are written
  as \<^verbatim>\<open>null\<close>.
\<close>

lemma js_parse_array: "js_parse ''[1,2]'' = Inr (JArr [JNum 1, JNum 2])"
  by code_simp

lemma js_stringify_array: "js_stringify (JArr [JNum 1, JNum 2]) = Inr ''[1,2]''"
  by code_simp

lemma js_stringify_array_holes:
  "js_stringify (JArr [JNum 1, JNum 2, JUndefined, JNum 5]) = Inr ''[1,2,null,5]''"
  by code_simp

lemma array_index_3: "array_index ''3'' = Some 3"
  by (simp add: array_index_def is_digit_def read_nat_def digit_val_def show_nat.simps
      digit_char_def char_of_eq_iff take_bit_eq_mod)

lemma array_index_count: "array_index ''count'' = None"
  by (simp add: array_index_def is_digit_def)

theorem array_snapshot_is_written_back:
  "written (trace (fire_onSet js (demo_closure Immediate) ''count'' (JNum 5)
      (demo_world ''[1,2]''))) = [''[1,2]'']
   \<and> written (trace (fire_onSet js (demo_closure Immediate) ''3'' (JNum 5)
      (demo_world ''[1,2]''))) = [''[1,2,null,5]'']"
  by (simp add: written_fire_onSet read_snapshot_def getState_def settle_def update_entry_def
      instanceof_DefaultValue_def set_prop_def demo_closure_def demo_world_def new_world_def
      getItem_mem empty_store_def parseState_string js_def js_parse_array js_stringify_array
      js_stringify_array_holes array_index_3 array_index_count Let_def)

end
